theory Spec2Isabelle
  imports Complex_Main
begin

section \<open>Numeric conventions\<close>

text \<open>
  The program computes with numpy and Python floats. The embedding computes with
  \<^typ>\<open>real\<close>: every statement below is about the exact arithmetic the floats
  approximate. The one float value that the control flow of the program depends on is
  NaN (arrays are initialised with it, and the generic dose response returns it for an
  unknown intensity level); a cell that may hold NaN is a \<^typ>\<open>real option\<close> or a
  \<^typ>\<open>nat option\<close>, with \<open>None\<close> for NaN, and every comparison with NaN is false, as
  in IEEE 754.

  Arrays are lists (a matrix a list of rows). All functions of the program index their
  arrays with the shapes they read off the first array (\<open>periodrisk.shape\<close>,
  \<open>P.shape\<close>); an array that is too small makes Python raise \<open>IndexError\<close>. The
  theorems carry the shapes as hypotheses.
\<close>

type_synonym matrix = "real list list"
type_synonym tensor = "real list list list"

definition get3 :: "tensor \<Rightarrow> nat \<Rightarrow> nat \<Rightarrow> nat \<Rightarrow> real" where
  "get3 A h t j = A ! h ! t ! j"

definition set3 :: "tensor \<Rightarrow> nat \<Rightarrow> nat \<Rightarrow> nat \<Rightarrow> real \<Rightarrow> tensor" where
  "set3 A h t j v = A[h := (A ! h)[t := (A ! h ! t)[j := v]]]"

definition set2 :: "'a list list \<Rightarrow> nat \<Rightarrow> nat \<Rightarrow> 'a \<Rightarrow> 'a list list" where
  "set2 A h j v = A[h := (A ! h)[j := v]]"

text \<open>The numpy slice \<open>P[s, :, a]\<close>: the distribution over the to-states.\<close>

definition slice :: "tensor \<Rightarrow> nat \<Rightarrow> nat \<Rightarrow> real list" where
  "slice P s a = map (\<lambda>row. row ! a) (P ! s)"

section \<open>Dose response (sbp\_reductions\_drugtype.py)\<close>

definition aceinhibitors :: "real \<Rightarrow> real" where
  "aceinhibitors pretreatment = 8.5 + 0.1 * (pretreatment - 154)"

definition calciumcb :: "real \<Rightarrow> real" where
  "calciumcb pretreatment = 8.8 + 0.1 * (pretreatment - 154)"

definition thiazides :: "real \<Rightarrow> real" where
  "thiazides pretreatment = 8.8 + 0.1 * (pretreatment - 154)"

definition betablock :: "real \<Rightarrow> real" where
  "betablock pretreatment = 9.2 + 0.1 * (pretreatment - 154)"

definition arb :: "real \<Rightarrow> real" where
  "arb pretreatment = 10.3 + 0.1 * (pretreatment - 154)"

text \<open>
  \<open>for r in range(n): sbp_reduc = sbp_reduc + drug(pretreatment - sbp_reduc)\<close>
\<close>

fun doses :: "(real \<Rightarrow> real) \<Rightarrow> nat \<Rightarrow> real \<Rightarrow> real \<Rightarrow> real" where
  "doses drug 0 pretreatment sbp_reduc = sbp_reduc"
| "doses drug (Suc n) pretreatment sbp_reduc =
     doses drug n pretreatment (sbp_reduc + drug (pretreatment - sbp_reduc))"

text \<open>
  A treatment is a drug combination, a list of drug class names; the bare name
  \<open>"ACE"\<close> that the test drivers pass counts like the one-element list (none of the five
  names occurs inside another). The guards \<open>if th > 0\<close> of the source are implied by
  the loops they protect.
\<close>

definition sbp_reductions :: "nat \<Rightarrow> real \<Rightarrow> string list list \<Rightarrow> real" where
  "sbp_reductions trt pretreatment alldrugs =
     (let drugcomb = alldrugs ! trt;
          th = count_list drugcomb ''TH'';
          bb = count_list drugcomb ''BB'';
          ace = count_list drugcomb ''ACE'';
          a2ra = count_list drugcomb ''ARB'';
          ccb = count_list drugcomb ''CCB'';
          sbp_reduc = 0;
          sbp_reduc = doses thiazides th pretreatment sbp_reduc;
          sbp_reduc = doses betablock bb pretreatment sbp_reduc;
          sbp_reduc = doses aceinhibitors ace pretreatment sbp_reduc;
          sbp_reduc = doses arb a2ra pretreatment sbp_reduc;
          sbp_reduc = doses calciumcb ccb pretreatment sbp_reduc
      in sbp_reduc)"

definition SBPreduc :: "real \<Rightarrow> real" where
  "SBPreduc pretreatment = 9.1 + 0.1 * (pretreatment - 154)"

text \<open>
  The generic dose response. A treatment level is an integer (the engines compute
  \<open>new_trt - 1\<close>); for a level that is not one of 0 to 5 the result is NaN (\<open>None\<close>).
\<close>

definition sbp_reductions_generic :: "int \<Rightarrow> real \<Rightarrow> real option" where
  "sbp_reductions_generic trt pretreatment =
     (let red_1std = SBPreduc pretreatment;
          red_2std = red_1std + SBPreduc (pretreatment - red_1std);
          red_3std = red_2std + SBPreduc (pretreatment - red_2std);
          red_4std = red_3std + SBPreduc (pretreatment - red_3std);
          red_5std = red_4std + SBPreduc (pretreatment - red_4std)
      in if trt = 0 then Some 0
         else if trt = 1 then Some red_1std
         else if trt = 2 then Some red_2std
         else if trt = 3 then Some red_3std
         else if trt = 4 then Some red_4std
         else if trt = 5 then Some red_5std
         else None)"

text \<open>
  The module \<open>dbp_reductions_drugtype\<close> (functions \<open>dbp_reductions\<close> and
  \<open>dbp_reductions_generic\<close>) is imported by the program and is not among its source
  files. Every function that calls it takes it as its first argument here.
\<close>

type_synonym dbp_drugtype = "nat \<Rightarrow> real \<Rightarrow> string list list \<Rightarrow> real"
type_synonym dbp_generic = "int \<Rightarrow> real \<Rightarrow> real option"

section \<open>Post-treatment risk (post\_treatment\_risk.py)\<close>

text \<open>
  \<open>RR = (list(riskslope)[event])**(sbpreduc/20)\<close>. On a positive base Python's float
  power is \<^const>\<open>powr\<close>; relative-risk slopes are positive, and the theorems say so.
\<close>

definition new_risk :: "real \<Rightarrow> real list \<Rightarrow> real \<Rightarrow> nat \<Rightarrow> real" where
  "new_risk sbpreduc riskslope pretrtrisk event =
     (let RR = (riskslope ! event) powr (sbpreduc / 20);
          risk = RR * pretrtrisk
      in risk)"

section \<open>Guideline engines\<close>

text \<open>
  Arithmetic and comparisons on values that may be NaN: the difference with NaN is
  NaN, and every comparison with NaN is false.
\<close>

definition nan_sub :: "real \<Rightarrow> real option \<Rightarrow> real option" where
  "nan_sub x r = (case r of None \<Rightarrow> None | Some d \<Rightarrow> Some (x - d))"

definition nan_less :: "real option \<Rightarrow> real \<Rightarrow> bool" where
  "nan_less x c = (case x of None \<Rightarrow> False | Some v \<Rightarrow> v < c)"

definition nan_ge :: "real option \<Rightarrow> real \<Rightarrow> bool" where
  "nan_ge x c = (case x of None \<Rightarrow> False | Some v \<Rightarrow> v \<ge> c)"

text \<open>
  \<open>new_risk(sbpreduc, riskslope.iloc[0, :], pretrtrisk[h, 0], 0) +
  new_risk(sbpreduc, riskslope.iloc[0, :], pretrtrisk[h, 1], 1)\<close>, the projected risk of
  both engines; \<open>riskslope\<close> is a table whose first row holds the two slopes.
\<close>

definition post_risk :: "real option \<Rightarrow> matrix \<Rightarrow> matrix \<Rightarrow> nat \<Rightarrow> real option" where
  "post_risk sbpreduc riskslope pretrtrisk h =
     (case sbpreduc of
        None \<Rightarrow> None
      | Some s \<Rightarrow> Some (new_risk s (riskslope ! 0) (pretrtrisk ! h ! 0) 0
                       + new_risk s (riskslope ! 0) (pretrtrisk ! h ! 1) 1))"

text \<open>
  \<open>(post_trt_sbp < sbpmin or sbpreduc < 0) or (post_trt_dbp < dbpmin or dbpreduc < 0)\<close>,
  the test of both engines that a treatment is not feasible.
\<close>

definition not_feasible ::
  "real option \<Rightarrow> real option \<Rightarrow> real option \<Rightarrow> real option \<Rightarrow> real \<Rightarrow> real \<Rightarrow> bool" where
  "not_feasible post_trt_sbp sbpreduc post_trt_dbp dbpreduc sbpmin dbpmin \<longleftrightarrow>
     (nan_less post_trt_sbp sbpmin \<or> nan_less sbpreduc 0)
     \<or> (nan_less post_trt_dbp dbpmin \<or> nan_less dbpreduc 0)"

subsection \<open>Risk threshold (risk\_based\_policy\_infinite.py)\<close>

text \<open>
  One monthly evaluation, lines 42 to 58, for a state with pressures \<open>sbp\<close> and
  \<open>dbp\<close>: the value assigned to \<open>policy[h]\<close>.
\<close>

definition risk_step ::
  "dbp_generic \<Rightarrow> real \<Rightarrow> real \<Rightarrow> real \<Rightarrow> real \<Rightarrow> int \<Rightarrow> int \<Rightarrow> int" where
  "risk_step dbp_reductions_generic sbp dbp sbpmin dbpmin numtrt past_trt =
     (let new_trt = (if past_trt + 1 > numtrt then past_trt else past_trt + 1);
          sbpreduc = sbp_reductions_generic new_trt sbp;
          post_trt_sbp = nan_sub sbp sbpreduc;
          dbpreduc = dbp_reductions_generic new_trt dbp;
          post_trt_dbp = nan_sub dbp dbpreduc
      in if not_feasible post_trt_sbp sbpreduc post_trt_dbp dbpreduc sbpmin dbpmin
         then past_trt else new_trt)"

text \<open>
  The monthly loop, lines 40 to 61. \<open>post_trt_risk\<close> is assigned before the loop
  (lines 32 and 33) and nowhere inside it. \<open>policy_h\<close> is \<open>policy[h]\<close>, NaN until
  the first assignment.
\<close>

function risk_loop ::
  "dbp_generic \<Rightarrow> real \<Rightarrow> real \<Rightarrow> real \<Rightarrow> real \<Rightarrow> int \<Rightarrow> real option \<Rightarrow> real
     \<Rightarrow> nat \<Rightarrow> int \<Rightarrow> int option \<Rightarrow> int option" where
  "risk_loop dbp_reductions_generic sbp dbp sbpmin dbpmin numtrt post_trt_risk threshold
      month past_trt policy_h =
     (if month \<le> 12 \<and> nan_ge post_trt_risk threshold then
        (let policy_h = risk_step dbp_reductions_generic sbp dbp sbpmin dbpmin numtrt past_trt;
             past_trt = policy_h
         in risk_loop dbp_reductions_generic sbp dbp sbpmin dbpmin numtrt post_trt_risk
              threshold (month + 1) past_trt (Some policy_h))
      else policy_h)"
  by pat_completeness auto
termination
  by (relation "measure (\<lambda>(g, sbp, dbp, smin, dmin, n, risk, thr, month, past, pol). 13 - month)")
     auto

definition risk_policy_state ::
  "dbp_generic \<Rightarrow> matrix \<Rightarrow> real list \<Rightarrow> real list \<Rightarrow> real \<Rightarrow> real \<Rightarrow> real \<Rightarrow> real
     \<Rightarrow> matrix \<Rightarrow> int \<Rightarrow> nat \<Rightarrow> int option" where
  "risk_policy_state dbp_reductions_generic pretrtrisk pretrtsbp pretrtdbp targetrisk
      targetdiff sbpmin dbpmin riskslope numtrt h =
     (let past_trt = 0;
          sbpreduc = sbp_reductions_generic past_trt (pretrtsbp ! h);
          post_trt_risk = post_risk sbpreduc riskslope pretrtrisk h
      in if nan_ge post_trt_risk (targetrisk - targetdiff) then
           risk_loop dbp_reductions_generic (pretrtsbp ! h) (pretrtdbp ! h) sbpmin dbpmin
             numtrt post_trt_risk (targetrisk - targetdiff) 1 past_trt None
         else Some past_trt)"

definition risk_policy_infinite ::
  "dbp_generic \<Rightarrow> matrix \<Rightarrow> real list \<Rightarrow> real list \<Rightarrow> real \<Rightarrow> real \<Rightarrow> real \<Rightarrow> real
     \<Rightarrow> matrix \<Rightarrow> int \<Rightarrow> int option list" where
  "risk_policy_infinite dbp_reductions_generic pretrtrisk pretrtsbp pretrtdbp targetrisk
      targetdiff sbpmin dbpmin riskslope numtrt =
     (let numhealth = length pretrtrisk;
          policy = replicate numhealth None
      in fold (\<lambda>h policy.
                 policy[h := risk_policy_state dbp_reductions_generic pretrtrisk pretrtsbp
                               pretrtdbp targetrisk targetdiff sbpmin dbpmin riskslope
                               numtrt h])
              [0..<numhealth] policy)"

subsection \<open>Clinical guideline (aha\_2017\_guideline\_infinite.py)\<close>

text \<open>
  One monthly evaluation of the first regime, lines 47 to 63: the post-treatment
  pressures of the treatment that was tried, and the value assigned to \<open>policy[h]\<close>.
\<close>

definition aha_step ::
  "dbp_generic \<Rightarrow> real \<Rightarrow> real \<Rightarrow> real \<Rightarrow> real \<Rightarrow> int \<Rightarrow> int
     \<Rightarrow> real option \<times> real option \<times> int" where
  "aha_step dbp_reductions_generic sbp dbp sbpmin dbpmin numtrt past_trt =
     (let new_trt = (if past_trt + 1 > numtrt then past_trt else past_trt + 1);
          sbpreduc = sbp_reductions_generic new_trt sbp;
          post_trt_sbp = nan_sub sbp sbpreduc;
          dbpreduc = dbp_reductions_generic new_trt dbp;
          post_trt_dbp = nan_sub dbp dbpreduc
      in if not_feasible post_trt_sbp sbpreduc post_trt_dbp dbpreduc sbpmin dbpmin
         then (post_trt_sbp, post_trt_dbp, past_trt)
         else (post_trt_sbp, post_trt_dbp, new_trt))"

text \<open>The monthly loop of the first regime, lines 45 to 66.\<close>

function aha_loop ::
  "dbp_generic \<Rightarrow> real \<Rightarrow> real \<Rightarrow> real \<Rightarrow> real \<Rightarrow> real \<Rightarrow> real \<Rightarrow> int
     \<Rightarrow> nat \<Rightarrow> real option \<Rightarrow> real option \<Rightarrow> int \<Rightarrow> int option \<Rightarrow> int option" where
  "aha_loop dbp_reductions_generic sbp dbp targetsbp targetdbp sbpmin dbpmin numtrt
      month post_trt_sbp post_trt_dbp past_trt policy_h =
     (if month \<le> 12 \<and> (nan_ge post_trt_sbp targetsbp \<or> nan_ge post_trt_dbp targetdbp) then
        (case aha_step dbp_reductions_generic sbp dbp sbpmin dbpmin numtrt past_trt of
           (post_trt_sbp, post_trt_dbp, policy_h) \<Rightarrow>
             aha_loop dbp_reductions_generic sbp dbp targetsbp targetdbp sbpmin dbpmin numtrt
               (month + 1) post_trt_sbp post_trt_dbp policy_h (Some policy_h))
      else policy_h)"
  by pat_completeness auto
termination
  by (relation "measure (\<lambda>(g, sbp, dbp, tsbp, tdbp, smin, dmin, n, month, ps, pd, past, pol).
        13 - month)") auto

text \<open>
  One monthly evaluation of the second regime, lines 73 to 104: at least two agents,
  and one agent less where the treatment tried is not feasible.
\<close>

definition aha_step2 ::
  "dbp_generic \<Rightarrow> real \<Rightarrow> real \<Rightarrow> real \<Rightarrow> real \<Rightarrow> int \<Rightarrow> int
     \<Rightarrow> real option \<times> real option \<times> int" where
  "aha_step2 dbp_reductions_generic sbp dbp sbpmin dbpmin numtrt past_trt =
     (let new_trt = (if past_trt + 1 > numtrt then past_trt
                     else if past_trt < 2 then 2
                     else past_trt + 1);
          sbpreduc = sbp_reductions_generic new_trt sbp;
          post_trt_sbp = nan_sub sbp sbpreduc;
          dbpreduc = dbp_reductions_generic new_trt dbp;
          post_trt_dbp = nan_sub dbp dbpreduc
      in if not_feasible post_trt_sbp sbpreduc post_trt_dbp dbpreduc sbpmin dbpmin then
           (let alt_trt = new_trt - 1;
                sbpreduc = sbp_reductions_generic alt_trt sbp;
                post_trt_sbp = nan_sub sbp sbpreduc;
                dbpreduc = dbp_reductions_generic alt_trt dbp;
                post_trt_dbp = nan_sub dbp dbpreduc
            in if not_feasible post_trt_sbp sbpreduc post_trt_dbp dbpreduc sbpmin dbpmin
               then (post_trt_sbp, post_trt_dbp, past_trt)
               else (post_trt_sbp, post_trt_dbp, alt_trt))
         else (post_trt_sbp, post_trt_dbp, new_trt))"

text \<open>The monthly loop of the second regime, lines 71 to 107.\<close>

function aha_loop2 ::
  "dbp_generic \<Rightarrow> real \<Rightarrow> real \<Rightarrow> real \<Rightarrow> real \<Rightarrow> real \<Rightarrow> real \<Rightarrow> int
     \<Rightarrow> nat \<Rightarrow> real option \<Rightarrow> real option \<Rightarrow> int \<Rightarrow> int option \<Rightarrow> int option" where
  "aha_loop2 dbp_reductions_generic sbp dbp targetsbp targetdbp sbpmin dbpmin numtrt
      month post_trt_sbp post_trt_dbp past_trt policy_h =
     (if month \<le> 12 \<and> (nan_ge post_trt_sbp targetsbp \<or> nan_ge post_trt_dbp targetdbp) then
        (case aha_step2 dbp_reductions_generic sbp dbp sbpmin dbpmin numtrt past_trt of
           (post_trt_sbp, post_trt_dbp, policy_h) \<Rightarrow>
             aha_loop2 dbp_reductions_generic sbp dbp targetsbp targetdbp sbpmin dbpmin numtrt
               (month + 1) post_trt_sbp post_trt_dbp policy_h (Some policy_h))
      else policy_h)"
  by pat_completeness auto
termination
  by (relation "measure (\<lambda>(g, sbp, dbp, tsbp, tdbp, smin, dmin, n, month, ps, pd, past, pol).
        13 - month)") auto

text \<open>
  The body of the loop over the states, lines 27 to 109: the final \<open>policy[h]\<close>, which
  starts as NaN (line 22). \<open>healthy\<close> is the list of the healthy states.
\<close>

definition aha_guideline_state ::
  "dbp_generic \<Rightarrow> matrix \<Rightarrow> real list \<Rightarrow> real list \<Rightarrow> real \<Rightarrow> real \<Rightarrow> real \<Rightarrow> real \<Rightarrow> real
     \<Rightarrow> matrix \<Rightarrow> int \<Rightarrow> nat list \<Rightarrow> nat \<Rightarrow> int option" where
  "aha_guideline_state dbp_reductions_generic pretrtrisk pretrtsbp pretrtdbp targetrisk
      targetsbp targetdbp sbpmin dbpmin riskslope numtrt healthy h =
     (let past_trt = 0;
          sbpreduc = sbp_reductions_generic past_trt (pretrtsbp ! h);
          dbpreduc = dbp_reductions_generic past_trt (pretrtdbp ! h);
          post_trt_risk = post_risk sbpreduc riskslope pretrtrisk h;
          post_trt_sbp = nan_sub (pretrtsbp ! h) sbpreduc;
          post_trt_dbp = nan_sub (pretrtdbp ! h) dbpreduc
      in if ((nan_ge post_trt_risk targetrisk \<or> h \<notin> set healthy)
              \<and> (nan_ge post_trt_sbp 130 \<or> nan_ge post_trt_dbp 80))
            \<or> ((nan_ge post_trt_sbp 140 \<or> nan_ge post_trt_dbp 90)
                \<and> (nan_less post_trt_sbp (targetsbp + 20)
                    \<and> nan_less post_trt_dbp (targetdbp + 10)))
         then aha_loop dbp_reductions_generic (pretrtsbp ! h) (pretrtdbp ! h) targetsbp
                targetdbp sbpmin dbpmin numtrt 1 post_trt_sbp post_trt_dbp past_trt None
         else if nan_ge post_trt_sbp (targetsbp + 20) \<or> nan_ge post_trt_dbp (targetdbp + 10)
         then aha_loop2 dbp_reductions_generic (pretrtsbp ! h) (pretrtdbp ! h) targetsbp
                targetdbp sbpmin dbpmin numtrt 1 post_trt_sbp post_trt_dbp past_trt None
         else Some past_trt)"

definition aha_guideline_infinite ::
  "dbp_generic \<Rightarrow> matrix \<Rightarrow> real list \<Rightarrow> real list \<Rightarrow> real \<Rightarrow> real \<Rightarrow> real \<Rightarrow> real \<Rightarrow> real
     \<Rightarrow> matrix \<Rightarrow> int \<Rightarrow> nat list \<Rightarrow> int option list" where
  "aha_guideline_infinite dbp_reductions_generic pretrtrisk pretrtsbp pretrtdbp targetrisk
      targetsbp targetdbp sbpmin dbpmin riskslope numtrt healthy =
     (let numhealth = length pretrtrisk;
          policy = replicate numhealth None
      in fold (\<lambda>h policy.
                 policy[h := aha_guideline_state dbp_reductions_generic pretrtrisk pretrtsbp
                               pretrtdbp targetrisk targetsbp targetdbp sbpmin dbpmin
                               riskslope numtrt healthy h])
              [0..<numhealth] policy)"

text \<open>
  The order of treatment intensities as the floats compare: NaN is neither below nor
  above anything.
\<close>

definition nan_le :: "int option \<Rightarrow> int option \<Rightarrow> bool" where
  "nan_le x y = (case (x, y) of (Some a, Some b) \<Rightarrow> a \<le> b | _ \<Rightarrow> False)"

section \<open>Transition probabilities (transition\_probabilities\_infinite.py)\<close>

record tp_input =
  periodrisk :: matrix
  chddeath :: real
  strokedeath :: real
  alldeath :: real
  riskslope :: "real list"
  pretrtsbp :: "real list"
  pretrtdbp :: "real list"
  sbpmin :: real
  dbpmin :: real
  sbpmax :: real
  dbpmax :: real
  alldrugs :: "string list list"

text \<open>Lines 50 to 64: the feasibility indicator of treatment \<open>j\<close> in state \<open>h\<close>.\<close>

definition mark_feasible :: "tp_input \<Rightarrow> nat \<Rightarrow> nat \<Rightarrow> real \<Rightarrow> real \<Rightarrow> real" where
  "mark_feasible inp j h sbpreduc dbpreduc =
     (if j = 0 then
        (if pretrtsbp inp ! h > sbpmax inp \<or> pretrtdbp inp ! h > dbpmax inp then 0 else 1)
      else
        (let newsbp = pretrtsbp inp ! h - sbpreduc;
             newdbp = pretrtdbp inp ! h - dbpreduc
         in if (newsbp < sbpmin inp \<or> pretrtsbp inp ! h < 0)
               \<or> (newdbp < dbpmin inp \<or> dbpreduc < 0)
            then 0 else 1))"

definition alternate :: "nat \<Rightarrow> nat" where
  "alternate h =
     (if h = 3 then 3
      else if h = 4 \<or> h = 1 then 1
      else if h = 5 \<or> h = 2 then 2
      else 0)"

text \<open>
  Lines 84 to 114, the \<open>while quits == 0\<close> block: every path through it ends in a
  \<open>break\<close>, so it runs once. \<open>risk0\<close> and \<open>risk1\<close> are \<open>risk[h, 0, j]\<close> and
  \<open>risk[h, 1, j]\<close>; \<open>cumulprob\<close> reads back the cell just written.
\<close>

definition allocate ::
  "real \<Rightarrow> real \<Rightarrow> real \<Rightarrow> real \<Rightarrow> real \<Rightarrow> nat \<Rightarrow> nat \<Rightarrow> nat \<Rightarrow> tensor \<Rightarrow> tensor" where
  "allocate chd strk alld risk0 risk1 alt h j ptrans =
     (let p8 = min 1 (strk * risk1);
          ptrans = set3 ptrans h 8 j p8;
          cumulprob = p8;
          p7 = min 1 (chd * risk0);
          ptrans = set3 ptrans h 7 j p7
      in if cumulprob + p7 \<ge> 1 then set3 ptrans h 7 j (1 - cumulprob)
      else
        let cumulprob = cumulprob + p7;
            p6 = min 1 alld;
            ptrans = set3 ptrans h 6 j p6
        in if cumulprob + p6 \<ge> 1 then set3 ptrans h 6 j (1 - cumulprob)
        else
          let cumulprob = cumulprob + p6;
              p5 = min 1 ((1 - strk) * risk1);
              ptrans = set3 ptrans h 5 j p5
          in if cumulprob + p5 \<ge> 1 then set3 ptrans h 5 j (1 - cumulprob)
          else
            let cumulprob = cumulprob + p5;
                p4 = min 1 ((1 - chd) * risk0);
                ptrans = set3 ptrans h 4 j p4
            in if cumulprob + p4 \<ge> 1 then set3 ptrans h 4 j (1 - cumulprob)
            else
              let cumulprob = cumulprob + p4
              in set3 ptrans h alt j (1 - cumulprob))"

text \<open>
  The body of the two nested loops for treatment \<open>j\<close> and state \<open>h\<close> (lines 50 to 114).
  The arrays \<open>sbpreduc\<close>, \<open>dbpreduc\<close> and \<open>risk\<close> of the source are written and read
  at \<open>[h, j]\<close> only, within this body: they are local values here.
\<close>

definition tp_body ::
  "dbp_drugtype \<Rightarrow> tp_input \<Rightarrow> nat \<Rightarrow> nat \<Rightarrow> tensor \<times> real option list list
     \<Rightarrow> tensor \<times> real option list list" where
  "tp_body dbp_reductions inp j h st =
     (let ptrans = fst st; feasible = snd st;
          sbpreduc = (if j = 0 then 0
                      else sbp_reductions j (pretrtsbp inp ! h) (alldrugs inp));
          dbpreduc = (if j = 0 then 0
                      else dbp_reductions j (pretrtdbp inp ! h) (alldrugs inp));
          feasible = set2 feasible h j (Some (mark_feasible inp j h sbpreduc dbpreduc));
          risk0 = new_risk sbpreduc (riskslope inp) (periodrisk inp ! h ! 0) 0;
          risk1 = new_risk sbpreduc (riskslope inp) (periodrisk inp ! h ! 1) 1;
          ptrans = (if h = 6 \<or> h = 7 \<or> h = 8 \<or> h = 9 then set3 ptrans h 9 j 1
                    else allocate (chddeath inp) (strokedeath inp) (alldeath inp)
                           risk0 risk1 (alternate h) h j ptrans)
      in (ptrans, feasible))"

text \<open>
  \<open>feasible[h, :].max()\<close>: numpy's maximum of a row is NaN as soon as one entry is.
  (It is never taken of an empty row: the check runs inside the loop over treatments.)
\<close>

fun np_max :: "real option list \<Rightarrow> real option" where
  "np_max [] = None"
| "np_max [x] = x"
| "np_max (x # y # ys) =
     (case (x, np_max (y # ys)) of
        (Some a, Some b) \<Rightarrow> Some (max a b)
      | _ \<Rightarrow> None)"

text \<open>
  One round of the outer loop (lines 48 to 118). The check of lines 117 and 118 is
  indented to the level of the loop over the states: it runs after that loop, once per
  treatment, with \<open>h\<close> left at the last state.
\<close>

definition tp_treatment ::
  "dbp_drugtype \<Rightarrow> tp_input \<Rightarrow> nat \<Rightarrow> tensor \<times> real option list list
     \<Rightarrow> tensor \<times> real option list list" where
  "tp_treatment dbp_reductions inp j st =
     (let numhealth = length (periodrisk inp);
          st = fold (tp_body dbp_reductions inp j) [0..<numhealth] st;
          ptrans = fst st; feasible = snd st;
          h = numhealth - 1
      in if np_max (feasible ! h) = Some 0
         then (ptrans, set2 feasible h 0 (Some 1))
         else (ptrans, feasible))"

definition TP_infinite ::
  "dbp_drugtype \<Rightarrow> tp_input \<Rightarrow> tensor \<times> real option list list" where
  "TP_infinite dbp_reductions inp =
     (let numhealth = length (periodrisk inp);
          numtrt = length (alldrugs inp);
          feasible = replicate numhealth (replicate numtrt None);
          ptrans = replicate numhealth (replicate numhealth (replicate numtrt 0))
      in fold (tp_treatment dbp_reductions inp) [0..<numtrt] (ptrans, feasible))"

text \<open>
  The shapes the ten-state model needs: ten states with two event risks each, a
  pressure pair per state, and two positive relative-risk slopes.
\<close>

definition wf_input :: "tp_input \<Rightarrow> bool" where
  "wf_input inp \<longleftrightarrow>
     length (periodrisk inp) = 10 \<and> (\<forall>h < 10. length (periodrisk inp ! h) = 2)
     \<and> length (pretrtsbp inp) = 10 \<and> length (pretrtdbp inp) = 10
     \<and> length (riskslope inp) = 2 \<and> 0 < riskslope inp ! 0 \<and> 0 < riskslope inp ! 1"

section \<open>Views of the arrays used in the proofs\<close>

text \<open>
  The definitions of this section are not part of the program: they name what the loops
  of \<open>TP_infinite\<close> compute cell by cell, and the lemmas below connect them with the
  loops.
\<close>

definition allocate_row ::
  "real \<Rightarrow> real \<Rightarrow> real \<Rightarrow> real \<Rightarrow> real \<Rightarrow> nat \<Rightarrow> (nat \<Rightarrow> real) \<Rightarrow> nat \<Rightarrow> real" where
  "allocate_row p8 p7 p6 p5 p4 alt row =
     (if p8 + p7 \<ge> 1 then row(8 := p8, 7 := 1 - p8)
      else if p8 + p7 + p6 \<ge> 1 then row(8 := p8, 7 := p7, 6 := 1 - (p8 + p7))
      else if p8 + p7 + p6 + p5 \<ge> 1
        then row(8 := p8, 7 := p7, 6 := p6, 5 := 1 - (p8 + p7 + p6))
      else if p8 + p7 + p6 + p5 + p4 \<ge> 1
        then row(8 := p8, 7 := p7, 6 := p6, 5 := p5, 4 := 1 - (p8 + p7 + p6 + p5))
      else row(8 := p8, 7 := p7, 6 := p6, 5 := p5, 4 := p4,
               alt := 1 - (p8 + p7 + p6 + p5 + p4)))"

definition okrow :: "tensor \<Rightarrow> nat \<Rightarrow> nat \<Rightarrow> bool" where
  "okrow A h j \<longleftrightarrow> h < length A \<and> length (A ! h) = 10 \<and> (\<forall>t<10. j < length (A ! h ! t))"

definition row_of :: "tensor \<Rightarrow> nat \<Rightarrow> nat \<Rightarrow> nat \<Rightarrow> real" where
  "row_of A h j = (\<lambda>t. get3 A h t j)"

definition tp_sbpreduc :: "tp_input \<Rightarrow> nat \<Rightarrow> nat \<Rightarrow> real" where
  "tp_sbpreduc inp h j =
     (if j = 0 then 0 else sbp_reductions j (pretrtsbp inp ! h) (alldrugs inp))"

definition tp_row_step :: "tp_input \<Rightarrow> nat \<Rightarrow> nat \<Rightarrow> (nat \<Rightarrow> real) \<Rightarrow> nat \<Rightarrow> real" where
  "tp_row_step inp h j row =
     (if h = 6 \<or> h = 7 \<or> h = 8 \<or> h = 9 then row(9 := 1)
      else
        (let risk0 = new_risk (tp_sbpreduc inp h j) (riskslope inp) (periodrisk inp ! h ! 0) 0;
             risk1 = new_risk (tp_sbpreduc inp h j) (riskslope inp) (periodrisk inp ! h ! 1) 1
         in allocate_row (min 1 (strokedeath inp * risk1)) (min 1 (chddeath inp * risk0))
              (min 1 (alldeath inp)) (min 1 ((1 - strokedeath inp) * risk1))
              (min 1 ((1 - chddeath inp) * risk0)) (alternate h) row))"

definition tp_row :: "tp_input \<Rightarrow> nat \<Rightarrow> nat \<Rightarrow> nat \<Rightarrow> real" where
  "tp_row inp h j = tp_row_step inp h j (\<lambda>t. 0)"

definition tp_dbpreduc :: "dbp_drugtype \<Rightarrow> tp_input \<Rightarrow> nat \<Rightarrow> nat \<Rightarrow> real" where
  "tp_dbpreduc dbp_reductions inp h j =
     (if j = 0 then 0 else dbp_reductions j (pretrtdbp inp ! h) (alldrugs inp))"

definition tp_feasible :: "dbp_drugtype \<Rightarrow> tp_input \<Rightarrow> nat \<Rightarrow> nat \<Rightarrow> real" where
  "tp_feasible dbp_reductions inp h j =
     mark_feasible inp j h (tp_sbpreduc inp h j) (tp_dbpreduc dbp_reductions inp h j)"

definition feas_inv ::
  "dbp_drugtype \<Rightarrow> tp_input \<Rightarrow> nat \<Rightarrow> real option list list \<Rightarrow> bool" where
  "feas_inv dbp inp m fe \<longleftrightarrow>
     length fe = length (periodrisk inp)
     \<and> (\<forall>h<length (periodrisk inp). length (fe ! h) = length (alldrugs inp)
          \<and> (\<forall>j<length (alldrugs inp).
                fe ! h ! j = (if j < m then Some (tp_feasible dbp inp h j) else None)))"

section \<open>Concrete inputs\<close>

text \<open>
  A stand-in for the absent diastolic dose response, for evaluating the functions at
  concrete inputs: a treatment that leaves the diastolic pressure where it is.
\<close>

definition no_dbp_effect :: dbp_drugtype where
  "no_dbp_effect trt pretreatment drugs = 0"

text \<open>
  A stand-in for the absent generic diastolic dose response, for evaluating the engines
  at concrete inputs: no reduction at any level.
\<close>

definition no_dbp_effect_generic :: dbp_generic where
  "no_dbp_effect_generic trt pretreatment = Some 0"

text \<open>
  A patient whose one-year event risks are certain: without treatment the stroke deaths
  (0.6) and the CHD deaths (0.5) together exceed the whole probability mass.
\<close>

definition c1_input :: tp_input where
  "c1_input = \<lparr>periodrisk = replicate 10 [1, 1],
      chddeath = 0.5, strokedeath = 0.6, alldeath = 0.01, riskslope = [0.8, 0.7],
      pretrtsbp = replicate 10 140, pretrtdbp = replicate 10 80,
      sbpmin = 120, dbpmin = 55, sbpmax = 150, dbpmax = 90,
      alldrugs = [[''NT''], [''ACE'']]\<rparr>"

text \<open>
  A patient without any event risk and a non-CVD death rate of one percent.
\<close>

definition c5_input :: tp_input where
  "c5_input = \<lparr>periodrisk = replicate 10 [0, 0],
      chddeath = 0.2, strokedeath = 0.3, alldeath = 0.01, riskslope = [0.8, 0.7],
      pretrtsbp = replicate 10 140, pretrtdbp = replicate 10 80,
      sbpmin = 120, dbpmin = 55, sbpmax = 150, dbpmax = 90,
      alldrugs = [[''NT''], [''ACE'']]\<rparr>"

text \<open>
  A patient with a systolic pressure of 154 in every state, the bounds of the test
  drivers (120 to 150 systolic, 55 to 90 diastolic), and two actions: no treatment and
  all five drug classes at once.
\<close>

definition c2_input :: tp_input where
  "c2_input = \<lparr>periodrisk = replicate 10 [0.02, 0.01],
      chddeath = 0.2, strokedeath = 0.3, alldeath = 0.01, riskslope = [0.8, 0.7],
      pretrtsbp = replicate 10 154, pretrtdbp = replicate 10 80,
      sbpmin = 120, dbpmin = 55, sbpmax = 150, dbpmax = 90,
      alldrugs = [[''NT''], [''TH'', ''BB'', ''ACE'', ''ARB'', ''CCB'']]\<rparr>"

text \<open>
  A patient with a systolic pressure of 60 and a diastolic pressure of 40, with lower
  bounds of 50 and 30, and two actions: no treatment and an ACE inhibitor.
\<close>

definition c4_input :: tp_input where
  "c4_input = \<lparr>periodrisk = replicate 10 [0.02, 0.01],
      chddeath = 0.2, strokedeath = 0.3, alldeath = 0.01, riskslope = [0.8, 0.7],
      pretrtsbp = replicate 10 60, pretrtdbp = replicate 10 40,
      sbpmin = 50, dbpmin = 30, sbpmax = 150, dbpmax = 90,
      alldrugs = [[''NT''], [''ACE'']]\<rparr>"

section \<open>Policy solver (policy\_evaluation\_infinite.py)\<close>

text \<open>
  The exceptions that the control flow of the solver itself can run into:
  \<open>ValueError\<close> (numpy's maximum or random draw over an empty range) and
  \<open>UnboundLocalError\<close> (a variable read before the loop that assigns it has run).
\<close>

datatype error = ValueError | UnboundLocalError

text \<open>\<open>np.dot\<close> of two vectors of the same length.\<close>

definition dot :: "real list \<Rightarrow> real list \<Rightarrow> real" where
  "dot xs ys = sum_list (map2 (*) xs ys)"

text \<open>
  \<open>np.max(np.abs(V - V_old))\<close>. numpy raises \<open>ValueError\<close> on an empty array; the
  callers return that error before they get here, so the first case is never taken.
\<close>

definition max_abs_diff :: "real list \<Rightarrow> real list \<Rightarrow> real" where
  "max_abs_diff V V_old =
     (case map2 (\<lambda>x y. \<bar>x - y\<bar>) V V_old of
        [] \<Rightarrow> 0
      | d # ds \<Rightarrow> fold max ds d)"

text \<open>
  A policy is an array of action indices (\<open>pol\<close> is the argument \<open>pi\<close> of the source, whose \<open>int(pi[s])\<close> is the identity on indices). The
  sweep over the states of \<open>evaluate_pi_infinite\<close> writes \<open>V_pi\<close> in place and reads
  the copy \<open>V_pi_old\<close>.
\<close>

definition evaluate_pi_sweep ::
  "nat list \<Rightarrow> tensor \<Rightarrow> matrix \<Rightarrow> real \<Rightarrow> real list \<Rightarrow> real list \<Rightarrow> real list" where
  "evaluate_pi_sweep pol P r gamma V_pi_old V_pi =
     fold (\<lambda>s V_pi.
             let a = pol ! s
             in V_pi[s := r ! s ! a + gamma * dot (slice P s a) V_pi_old])
          [0..<length P] V_pi"

fun evaluate_pi_loop ::
  "nat list \<Rightarrow> tensor \<Rightarrow> matrix \<Rightarrow> real \<Rightarrow> real \<Rightarrow> nat \<Rightarrow> real list \<Rightarrow> real list" where
  "evaluate_pi_loop pol P r gamma tolerance 0 V_pi = V_pi"
| "evaluate_pi_loop pol P r gamma tolerance (Suc n) V_pi =
     (let V_pi_old = V_pi;
          V_pi = evaluate_pi_sweep pol P r gamma V_pi_old V_pi
      in if max_abs_diff V_pi V_pi_old < tolerance then V_pi
         else evaluate_pi_loop pol P r gamma tolerance n V_pi)"

definition evaluate_pi_infinite ::
  "nat list \<Rightarrow> tensor \<Rightarrow> matrix \<Rightarrow> real \<Rightarrow> nat \<Rightarrow> real \<Rightarrow> error + real list" where
  "evaluate_pi_infinite pol P r gamma max_iterations tolerance =
     (let S = length P;
          V_pi = replicate S 0
      in if S = 0 \<and> 0 < max_iterations then Inl ValueError
         else Inr (evaluate_pi_loop pol P r gamma tolerance max_iterations V_pi))"

definition evaluate_events_sweep ::
  "nat list \<Rightarrow> tensor \<Rightarrow> real list \<Rightarrow> real \<Rightarrow> real list \<Rightarrow> real list \<Rightarrow> real list" where
  "evaluate_events_sweep pol P event_states gamma E_pi_old E_pi =
     fold (\<lambda>s E_pi.
             let a = pol ! s
             in E_pi[s := event_states ! s + gamma * dot (slice P s a) E_pi_old])
          [0..<length P] E_pi"

fun evaluate_events_loop ::
  "nat list \<Rightarrow> tensor \<Rightarrow> real list \<Rightarrow> real \<Rightarrow> real \<Rightarrow> nat \<Rightarrow> real list \<Rightarrow> real list" where
  "evaluate_events_loop pol P event_states gamma tolerance 0 E_pi = E_pi"
| "evaluate_events_loop pol P event_states gamma tolerance (Suc n) E_pi =
     (let E_pi_old = E_pi;
          E_pi = evaluate_events_sweep pol P event_states gamma E_pi_old E_pi
      in if max_abs_diff E_pi E_pi_old < tolerance then E_pi
         else evaluate_events_loop pol P event_states gamma tolerance n E_pi)"

definition evaluate_events_infinite ::
  "nat list \<Rightarrow> tensor \<Rightarrow> real list \<Rightarrow> real \<Rightarrow> nat \<Rightarrow> real \<Rightarrow> error + real list" where
  "evaluate_events_infinite pol P event_states gamma max_iterations tolerance =
     (let S = length P;
          E_pi = replicate S 0
      in if S = 0 \<and> 0 < max_iterations then Inl ValueError
         else Inr (evaluate_events_loop pol P event_states gamma tolerance max_iterations E_pi))"

text \<open>
  The reward matrix of claim C8: \<open>r_e[s, a] = e[s]\<close> for each of the \<open>A\<close> actions.
\<close>

definition event_reward :: "real list \<Rightarrow> nat \<Rightarrow> matrix" where
  "event_reward e A = map (\<lambda>x. replicate A x) e"

text \<open>
  \<open>np.argmax\<close>: the index of the first occurrence of the maximum. (On an empty array
  numpy raises \<open>ValueError\<close>; \<open>policy_improvement_infinite\<close> has failed before.)
\<close>

fun argmax_scan :: "nat \<Rightarrow> real \<Rightarrow> nat \<Rightarrow> real list \<Rightarrow> nat" where
  "argmax_scan best bestval i [] = best"
| "argmax_scan best bestval i (x # xs) =
     (if bestval < x then argmax_scan i x (Suc i) xs
      else argmax_scan best bestval (Suc i) xs)"

definition np_argmax :: "real list \<Rightarrow> nat" where
  "np_argmax xs = (case xs of [] \<Rightarrow> 0 | x # xs' \<Rightarrow> argmax_scan 0 x 1 xs')"

text \<open>\<open>P.shape[2]\<close>, the number of actions (an empty tensor is read as having none).\<close>

definition num_actions :: "tensor \<Rightarrow> nat" where
  "num_actions P =
     (case P of [] \<Rightarrow> 0 | row # _ \<Rightarrow> (case row of [] \<Rightarrow> 0 | cell # _ \<Rightarrow> length cell))"

text \<open>\<open>Q_values[a] = r[s, a] + gamma * np.dot(P[s, :, a], V_opt)\<close>\<close>

definition Q_values :: "tensor \<Rightarrow> matrix \<Rightarrow> real \<Rightarrow> real list \<Rightarrow> nat \<Rightarrow> real list" where
  "Q_values P r gamma V_opt s =
     map (\<lambda>a. r ! s ! a + gamma * dot (slice P s a) V_opt) [0..<num_actions P]"

text \<open>The improvement sweep, lines 116 to 120.\<close>

definition improve :: "tensor \<Rightarrow> matrix \<Rightarrow> real \<Rightarrow> real list \<Rightarrow> nat list \<Rightarrow> nat list" where
  "improve P r gamma V_opt pi_opt =
     fold (\<lambda>s pi_opt. pi_opt[s := np_argmax (Q_values P r gamma V_opt s)])
          [0..<length P] pi_opt"

text \<open>
  The policy iteration loop, lines 109 to 124, with the number of rounds that are left.
  \<open>V_opt\<close> is unbound (\<open>None\<close>) until the first round has assigned it.
\<close>

fun policy_iteration_loop ::
  "tensor \<Rightarrow> matrix \<Rightarrow> real \<Rightarrow> nat \<Rightarrow> real \<Rightarrow> nat \<Rightarrow> nat list \<Rightarrow> real list option
     \<Rightarrow> error + nat list \<times> real list option" where
  "policy_iteration_loop P r gamma max_iterations tolerance 0 pi_opt V_opt =
     Inr (pi_opt, V_opt)"
| "policy_iteration_loop P r gamma max_iterations tolerance (Suc n) pi_opt V_opt =
     (let pi_old = pi_opt
      in case evaluate_pi_infinite pi_opt P r gamma max_iterations tolerance of
           Inl e \<Rightarrow> Inl e
         | Inr V_opt \<Rightarrow>
             let pi_opt = improve P r gamma V_opt pi_opt
             in if pi_opt = pi_old then Inr (pi_opt, Some V_opt)
                else policy_iteration_loop P r gamma max_iterations tolerance n pi_opt
                       (Some V_opt))"

text \<open>
  \<open>pi_opt = np.random.randint(0, A, S)\<close> reads numpy's process-global generator; the
  function has no parameter for a random source. The array it draws is the first
  argument of the model, \<open>drawn\<close>. (The draw raises \<open>ValueError\<close> when there is no
  action to draw from; the \<open>return\<close> raises \<open>UnboundLocalError\<close> when no round has
  run.)
\<close>

definition policy_improvement_infinite ::
  "nat list \<Rightarrow> tensor \<Rightarrow> matrix \<Rightarrow> real \<Rightarrow> nat \<Rightarrow> real \<Rightarrow> error + nat list \<times> real list" where
  "policy_improvement_infinite drawn P r gamma max_iterations tolerance =
     (if num_actions P = 0 then Inl ValueError
      else
        case policy_iteration_loop P r gamma max_iterations tolerance max_iterations drawn None of
          Inl e \<Rightarrow> Inl e
        | Inr (pi_opt, None) \<Rightarrow> Inl UnboundLocalError
        | Inr (pi_opt, Some V_opt) \<Rightarrow> Inr (pi_opt, V_opt))"

section \<open>What policy iteration is meant to compute\<close>

text \<open>
  The definitions of this section follow the description of policy iteration, not the
  code: the value that a full policy evaluation returns for a policy, the sequence of
  policies that alternating evaluation and improvement produces, the quantity
  \<open>r(s,a) + \<gamma> \<Sum>\<^sub>s\<^sub>' P(s,s',a) V(s')\<close>, and what it means for an action to be the
  greedy one with ties broken by the lowest index.
\<close>

definition policy_value ::
  "tensor \<Rightarrow> matrix \<Rightarrow> real \<Rightarrow> nat \<Rightarrow> real \<Rightarrow> nat list \<Rightarrow> real list" where
  "policy_value P r gamma max_iterations tolerance p =
     evaluate_pi_loop p P r gamma tolerance max_iterations (replicate (length P) 0)"

fun policy_sequence ::
  "tensor \<Rightarrow> matrix \<Rightarrow> real \<Rightarrow> nat \<Rightarrow> real \<Rightarrow> nat list \<Rightarrow> nat \<Rightarrow> nat list" where
  "policy_sequence P r gamma max_iterations tolerance p 0 = p"
| "policy_sequence P r gamma max_iterations tolerance p (Suc k) =
     improve P r gamma
       (policy_value P r gamma max_iterations tolerance
          (policy_sequence P r gamma max_iterations tolerance p k))
       (policy_sequence P r gamma max_iterations tolerance p k)"

definition bellman_q :: "tensor \<Rightarrow> matrix \<Rightarrow> real \<Rightarrow> real list \<Rightarrow> nat \<Rightarrow> nat \<Rightarrow> real" where
  "bellman_q P r gamma V s a = r ! s ! a + gamma * (\<Sum>s'<length P. P ! s ! s' ! a * V ! s')"

definition greedy_first :: "tensor \<Rightarrow> matrix \<Rightarrow> real \<Rightarrow> real list \<Rightarrow> nat \<Rightarrow> nat \<Rightarrow> bool" where
  "greedy_first P r gamma V s a \<longleftrightarrow>
     a < num_actions P
     \<and> (\<forall>b<num_actions P. bellman_q P r gamma V s b \<le> bellman_q P r gamma V s a)
     \<and> (\<forall>b<a. bellman_q P r gamma V s b < bellman_q P r gamma V s a)"

text \<open>A transition tensor of shape \<open>S \<times> S \<times> A\<close> with at least one state and action.\<close>

definition wf_mdp :: "tensor \<Rightarrow> bool" where
  "wf_mdp P \<longleftrightarrow>
     0 < length P \<and> 0 < num_actions P
     \<and> (\<forall>s<length P. length (P ! s) = length P
           \<and> (\<forall>s'<length P. length (P ! s ! s') = num_actions P))"

text \<open>
  A process with two states and two actions: state 1 is absorbing and pays nothing;
  in state 0 the first action pays 1 and stays with probability 0.5, the second pays
  0.9 and stays with probability 0.2.
\<close>

definition c6_P :: tensor where
  "c6_P = [[[0.5, 0.2], [0.5, 0.8]], [[0, 0], [1, 1]]]"

definition c6_r :: matrix where
  "c6_r = [[1, 0.9], [0, 0]]"

section \<open>Shape and frame lemmas for the arrays\<close>

lemma length_set3 [simp]: "length (set3 A h t j v) = length A"
  by (simp add: set3_def)

lemma nth_upd: "xs[i := x] ! k = (if k = i \<and> i < length xs then x else xs ! k)"
  by (cases "i < length xs") (auto simp: nth_list_update list_update_beyond not_less)

lemma get3_set3:
  "get3 (set3 A h t j v) h' t' j' =
     (if h' = h \<and> t' = t \<and> j' = j \<and> h < length A \<and> t < length (A ! h) \<and> j < length (A ! h ! t)
      then v else get3 A h' t' j')"
  by (auto simp: get3_def set3_def nth_upd)

lemma length_set3_row [simp]: "length (set3 A h t j v ! h') = length (A ! h')"
  by (auto simp: set3_def nth_upd)

lemma length_set3_cell [simp]: "length (set3 A h t j v ! h' ! t') = length (A ! h' ! t')"
  by (auto simp: set3_def nth_upd)

lemma okrow_set3 [simp]: "okrow (set3 A h t j v) h' j' = okrow A h' j'"
  by (simp add: okrow_def)

lemma row_of_set3:
  "okrow A h j \<Longrightarrow> t < 10 \<Longrightarrow> row_of (set3 A h t j v) h j = (row_of A h j)(t := v)"
  by (auto simp: row_of_def okrow_def get3_set3 fun_eq_iff)

lemma row_of_set3_other:
  "h' \<noteq> h \<or> j' \<noteq> j \<Longrightarrow> row_of (set3 A h t j v) h' j' = row_of A h' j'"
  by (auto simp: row_of_def get3_set3 fun_eq_iff)

lemma length_allocate [simp]:
  "length (allocate chd strk alld r0 r1 alt h j A) = length A"
  "length (allocate chd strk alld r0 r1 alt h j A ! h') = length (A ! h')"
  "length (allocate chd strk alld r0 r1 alt h j A ! h' ! t') = length (A ! h' ! t')"
  by (simp_all add: allocate_def Let_def)

lemma okrow_allocate [simp]:
  "okrow (allocate chd strk alld r0 r1 alt h j A) h' j' = okrow A h' j'"
  by (simp add: okrow_def)

lemma row_of_allocate:
  assumes "okrow A h j" "alt < 10"
  shows "row_of (allocate chd strk alld r0 r1 alt h j A) h j =
         allocate_row (min 1 (strk * r1)) (min 1 (chd * r0)) (min 1 alld)
           (min 1 ((1 - strk) * r1)) (min 1 ((1 - chd) * r0)) alt (row_of A h j)"
proof -
  define p8 where "p8 = min 1 (strk * r1)"
  define p7 where "p7 = min 1 (chd * r0)"
  define p6 where "p6 = min 1 alld"
  define p5 where "p5 = min 1 ((1 - strk) * r1)"
  define p4 where "p4 = min 1 ((1 - chd) * r0)"
  have "row_of (allocate chd strk alld r0 r1 alt h j A) h j =
        allocate_row p8 p7 p6 p5 p4 alt (row_of A h j)"
    unfolding allocate_def allocate_row_def Let_def
      p8_def [symmetric] p7_def [symmetric] p6_def [symmetric] p5_def [symmetric]
      p4_def [symmetric]
    using assms
    by (simp add: if_distrib [where f="\<lambda>A. row_of A h j"] row_of_set3 del: fun_upd_apply)
  then show ?thesis
    by (simp only: p8_def p7_def p6_def p5_def p4_def)
qed

lemma row_of_allocate_other:
  assumes "h' \<noteq> h \<or> j' \<noteq> j"
  shows "row_of (allocate chd strk alld r0 r1 alt h j A) h' j' = row_of A h' j'"
  unfolding allocate_def Let_def
  using assms
  by (simp add: if_distrib[where f="\<lambda>A. row_of A h' j'"] row_of_set3_other)

lemma alternate_less: "alternate h < 4"
  by (simp add: alternate_def)

lemma okrow_tp_body [simp]:
  "okrow (fst (tp_body dbp inp j h st)) h' j' = okrow (fst st) h' j'"
  by (simp add: tp_body_def Let_def)

lemma row_of_tp_body:
  assumes "okrow (fst st) h j"
  shows "row_of (fst (tp_body dbp inp j h st)) h j = tp_row_step inp h j (row_of (fst st) h j)"
proof -
  have "alternate h < 10" using alternate_less [of h] by simp
  then show ?thesis
    using assms
    by (simp add: tp_body_def tp_row_step_def tp_sbpreduc_def Let_def row_of_allocate row_of_set3
             del: fun_upd_apply)
qed

lemma row_of_tp_body_other:
  assumes "h' \<noteq> h \<or> j' \<noteq> j"
  shows "row_of (fst (tp_body dbp inp j h st)) h' j' = row_of (fst st) h' j'"
  using assms
  by (simp add: tp_body_def Let_def row_of_allocate_other row_of_set3_other)

lemma okrow_fold_body [simp]:
  "okrow (fst (fold (tp_body dbp inp j) [0..<n] st)) h' j' = okrow (fst st) h' j'"
  by (induction n) simp_all

lemma row_of_fold_body:
  assumes "\<forall>h<n. okrow (fst st) h j"
  shows "row_of (fst (fold (tp_body dbp inp j) [0..<n] st)) h j' =
         (if j' = j \<and> h < n then tp_row_step inp h j (row_of (fst st) h j)
          else row_of (fst st) h j')"
  using assms
proof (induction n arbitrary: h j')
  case 0
  then show ?case by simp
next
  case (Suc n)
  let ?st = "fold (tp_body dbp inp j) [0..<n] st"
  have ih: "row_of (fst ?st) h j' =
         (if j' = j \<and> h < n then tp_row_step inp h j (row_of (fst st) h j)
          else row_of (fst st) h j')" for h j'
    using Suc by simp
  have ok: "okrow (fst ?st) n j" using Suc.prems by simp
  show ?case
  proof (cases "h = n \<and> j' = j")
    case True
    then show ?thesis
      using row_of_tp_body [OF ok, of dbp inp] ih [of n j] by simp
  next
    case False
    then have "row_of (fst (tp_body dbp inp j n ?st)) h j' = row_of (fst ?st) h j'"
      by (intro row_of_tp_body_other) auto
    then show ?thesis using False ih [of h j'] by auto
  qed
qed

lemma fst_tp_treatment:
  "fst (tp_treatment dbp inp j st) =
     fst (fold (tp_body dbp inp j) [0..<length (periodrisk inp)] st)"
  by (simp add: tp_treatment_def Let_def)

lemma okrow_fold_treatment [simp]:
  "okrow (fst (fold (tp_treatment dbp inp) [0..<m] st)) h' j' = okrow (fst st) h' j'"
  by (induction m) (simp_all add: fst_tp_treatment)

lemma row_of_fold_treatment:
  assumes "\<forall>h<length (periodrisk inp). \<forall>j<m. okrow (fst st) h j"
  shows "row_of (fst (fold (tp_treatment dbp inp) [0..<m] st)) h j =
         (if j < m \<and> h < length (periodrisk inp) then tp_row_step inp h j (row_of (fst st) h j)
          else row_of (fst st) h j)"
  using assms
proof (induction m arbitrary: h j)
  case 0
  then show ?case by simp
next
  case (Suc m)
  let ?st = "fold (tp_treatment dbp inp) [0..<m] st"
  have ih: "row_of (fst ?st) h j =
         (if j < m \<and> h < length (periodrisk inp) then tp_row_step inp h j (row_of (fst st) h j)
          else row_of (fst st) h j)" for h j
    using Suc by simp
  have ok: "\<forall>h<length (periodrisk inp). okrow (fst ?st) h m" using Suc.prems by simp
  show ?case
    using row_of_fold_body [OF ok, where dbp=dbp and h=h and j'=j] ih [of h j] ih [of h m]
    by (auto simp: fst_tp_treatment less_Suc_eq)
qed

lemma allocate_row_cong:
  "row t = row' t \<Longrightarrow>
   allocate_row p8 p7 p6 p5 p4 alt row t = allocate_row p8 p7 p6 p5 p4 alt row' t"
  by (auto simp: allocate_row_def)

lemma tp_row_step_cong:
  "row t = row' t \<Longrightarrow> tp_row_step inp h j row t = tp_row_step inp h j row' t"
  unfolding tp_row_step_def Let_def
  by (auto intro: allocate_row_cong)

lemma okrow_zeros:
  "h < 10 \<Longrightarrow> j < nt \<Longrightarrow> okrow (replicate 10 (replicate 10 (replicate nt 0))) h j"
  by (simp add: okrow_def)

lemma get3_TP_infinite:
  assumes "length (periodrisk inp) = 10" "h < 10" "t < 10" "j < length (alldrugs inp)"
  shows "get3 (fst (TP_infinite dbp inp)) h t j = tp_row inp h j t"
proof -
  let ?Z = "replicate 10 (replicate 10 (replicate (length (alldrugs inp)) (0::real)))"
  let ?F = "replicate 10 (replicate (length (alldrugs inp)) (None::real option))"
  have ok: "\<forall>h<length (periodrisk inp). \<forall>j<length (alldrugs inp). okrow (fst (?Z, ?F)) h j"
    using assms(1) by (simp add: okrow_zeros)
  have "row_of (fst (TP_infinite dbp inp)) h j = tp_row_step inp h j (row_of ?Z h j)"
    using row_of_fold_treatment [OF ok, where dbp=dbp and h=h and j=j] assms
    by (simp add: TP_infinite_def Let_def)
  then have "get3 (fst (TP_infinite dbp inp)) h t j = tp_row_step inp h j (row_of ?Z h j) t"
    by (simp add: row_of_def fun_eq_iff)
  also have "\<dots> = tp_row_step inp h j (\<lambda>t. 0) t"
    using assms by (intro tp_row_step_cong) (simp add: row_of_def get3_def)
  finally show ?thesis by (simp add: tp_row_def)
qed

lemma shape_TP_infinite:
  assumes "length (periodrisk inp) = 10" "h < 10"
  shows "length (fst (TP_infinite dbp inp) ! h) = 10"
proof -
  have inner: "length (fst (fold (tp_body dbp inp j) [0..<n] st) ! h) = length (fst st ! h)"
    for j n st
    by (induction n) (simp_all add: tp_body_def Let_def)
  have "length (fst (fold (tp_treatment dbp inp) [0..<m] st) ! h) = length (fst st ! h)" for m st
    by (induction m) (simp_all add: fst_tp_treatment inner)
  then show ?thesis
    using assms by (simp add: TP_infinite_def Let_def)
qed

lemma upt_10: "[0..<10] = [0, 1, 2, 3, 4, 5, 6, 7, 8, 9::nat]"
  by (simp add: upt_rec)

lemma slice_TP_infinite:
  assumes "length (periodrisk inp) = 10" "h < 10" "j < length (alldrugs inp)"
  shows "slice (fst (TP_infinite dbp inp)) h j = map (tp_row inp h j) [0..<10]"
proof -
  let ?P = "fst (TP_infinite dbp inp)"
  have len: "length (?P ! h) = 10" using assms by (simp add: shape_TP_infinite)
  show ?thesis
  proof (rule nth_equalityI)
    show "length (slice ?P h j) = length (map (tp_row inp h j) [0..<10])"
      using len by (simp add: slice_def)
  next
    fix t assume "t < length (slice ?P h j)"
    then have t: "t < 10" using len by (simp add: slice_def)
    then have "slice ?P h j ! t = get3 ?P h t j"
      using len by (simp add: slice_def get3_def)
    then show "slice ?P h j ! t = map (tp_row inp h j) [0..<10] ! t"
      using get3_TP_infinite [OF assms(1,2) t assms(3), of dbp] t by simp
  qed
qed

lemma allocate_row_zero:
  fixes p8 p7 p6 p5 p4 :: real
  assumes "0 \<le> p8" "p8 \<le> 1" "0 \<le> p7" "0 \<le> p6" "0 \<le> p5" "0 \<le> p4"
    and alt: "alt < 4"
  defines "f \<equiv> allocate_row p8 p7 p6 p5 p4 alt (\<lambda>t. 0)"
  shows "0 \<le> f t" and "f 0 + f 1 + f 2 + f 3 + f 4 + f 5 + f 6 + f 7 + f 8 + f 9 = 1"
proof -
  show "0 \<le> f t"
    using assms(1-6) by (auto simp: f_def allocate_row_def)
  from alt have "alt = 0 \<or> alt = 1 \<or> alt = 2 \<or> alt = 3" by arith
  then show "f 0 + f 1 + f 2 + f 3 + f 4 + f 5 + f 6 + f 7 + f 8 + f 9 = 1"
    by (auto simp: f_def allocate_row_def)
qed

lemma length_set2 [simp]: "length (set2 A h j v) = length A"
  by (simp add: set2_def)

lemma length_set2_row [simp]: "length (set2 A h j v ! h') = length (A ! h')"
  by (auto simp: set2_def nth_upd)

lemma nth_set2:
  "set2 A h j v ! h' ! j' =
     (if h' = h \<and> j' = j \<and> h < length A \<and> j < length (A ! h) then v else A ! h' ! j')"
  by (auto simp: set2_def nth_upd)

lemma snd_tp_body:
  "snd (tp_body dbp inp j h st) = set2 (snd st) h j (Some (tp_feasible dbp inp h j))"
  by (simp add: tp_body_def Let_def tp_feasible_def tp_sbpreduc_def tp_dbpreduc_def)

lemma length_snd_fold_body [simp]:
  "length (snd (fold (tp_body dbp inp j) [0..<n] st)) = length (snd st)"
  "length (snd (fold (tp_body dbp inp j) [0..<n] st) ! h) = length (snd st ! h)"
  by (induction n) (simp_all add: snd_tp_body)

lemma snd_fold_body:
  assumes "n \<le> length (snd st)" "\<forall>h<n. j < length (snd st ! h)"
  shows "snd (fold (tp_body dbp inp j) [0..<n] st) ! h ! j' =
         (if j' = j \<and> h < n then Some (tp_feasible dbp inp h j) else snd st ! h ! j')"
  using assms
  by (induction n arbitrary: h j') (auto simp: snd_tp_body nth_set2 less_Suc_eq)

lemma np_max_None: "None \<in> set xs \<Longrightarrow> np_max xs = None"
  by (induction xs rule: np_max.induct) (auto split: option.splits)

lemma np_max_Some: "xs \<noteq> [] \<Longrightarrow> np_max (map Some xs) = Some (Max (set xs))"
proof (induction xs)
  case Nil
  then show ?case by simp
next
  case (Cons x xs)
  show ?case
  proof (cases xs)
    case Nil
    then show ?thesis by simp
  next
    case (Cons y ys)
    then have "np_max (map Some xs) = Some (Max (set xs))" using Cons.IH by simp
    then show ?thesis using Cons by simp
  qed
qed

lemma snd_tp_treatment:
  "snd (tp_treatment dbp inp j st) =
     (let fe = snd (fold (tp_body dbp inp j) [0..<length (periodrisk inp)] st);
          h = length (periodrisk inp) - 1
      in if np_max (fe ! h) = Some 0 then set2 fe h 0 (Some 1) else fe)"
  by (simp add: tp_treatment_def Let_def)

lemma mark_feasible_01: "mark_feasible inp j h s d = 0 \<or> mark_feasible inp j h s d = 1"
  by (simp add: mark_feasible_def Let_def)

lemma tp_feasible_01: "tp_feasible dbp inp h j = 0 \<or> tp_feasible dbp inp h j = 1"
  by (simp add: tp_feasible_def mark_feasible_01)

lemma feas_inv_fold_body:
  assumes "feas_inv dbp inp m (snd st)" "m < length (alldrugs inp)"
  shows "feas_inv dbp inp (Suc m)
           (snd (fold (tp_body dbp inp m) [0..<length (periodrisk inp)] st))"
proof -
  have len: "length (periodrisk inp) \<le> length (snd st)"
    "\<forall>h<length (periodrisk inp). m < length (snd st ! h)"
    using assms by (simp_all add: feas_inv_def)
  show ?thesis
    using assms snd_fold_body [OF len, of dbp]
    by (auto simp: feas_inv_def less_Suc_eq)
qed

lemma feas_inv_treatment:
  assumes "feas_inv dbp inp m (snd st)" "Suc m < length (alldrugs inp)"
    "0 < length (periodrisk inp)"
  shows "feas_inv dbp inp (Suc m) (snd (tp_treatment dbp inp m st))"
proof -
  let ?fe = "snd (fold (tp_body dbp inp m) [0..<length (periodrisk inp)] st)"
  let ?h = "length (periodrisk inp) - 1"
  have inv: "feas_inv dbp inp (Suc m) ?fe"
    using assms by (intro feas_inv_fold_body) simp_all
  have h: "?h < length (periodrisk inp)" using assms(3) by simp
  have "?fe ! ?h ! Suc m = None" "Suc m < length (?fe ! ?h)"
    using inv h assms(2) by (simp_all add: feas_inv_def)
  then have "None \<in> set (?fe ! ?h)"
    by (metis nth_mem)
  then have "np_max (?fe ! ?h) = None" by (rule np_max_None)
  then show ?thesis using inv by (simp add: snd_tp_treatment Let_def)
qed

lemma feas_inv_fold_treatment:
  assumes "m < length (alldrugs inp)" "0 < length (periodrisk inp)"
  shows "feas_inv dbp inp m
           (snd (fold (tp_treatment dbp inp) [0..<m]
              (P, replicate (length (periodrisk inp)) (replicate (length (alldrugs inp)) None))))"
  using assms
proof (induction m)
  case 0
  then show ?case by (simp add: feas_inv_def)
next
  case (Suc m)
  then show ?case by (simp add: feas_inv_treatment)
qed

lemma fold_upt_last: "0 < n \<Longrightarrow> fold f [0..<n] s = f (n - 1) (fold f [0..<n - 1] s)"
  by (cases n) simp_all

lemma feasible_TP_infinite:
  assumes "h < length (periodrisk inp)" "j < length (alldrugs inp)"
  shows "snd (TP_infinite dbp inp) ! h ! j =
     (if h = length (periodrisk inp) - 1 \<and> j = 0
         \<and> (\<forall>j<length (alldrugs inp). tp_feasible dbp inp (length (periodrisk inp) - 1) j = 0)
      then Some 1 else Some (tp_feasible dbp inp h j))"
proof -
  let ?nh = "length (periodrisk inp)" and ?nt = "length (alldrugs inp)"
  let ?st0 = "(replicate ?nh (replicate ?nh (replicate ?nt (0::real))),
               replicate ?nh (replicate ?nt (None::real option)))"
  let ?st = "fold (tp_treatment dbp inp) [0..<?nt - 1] ?st0"
  let ?fe = "snd (fold (tp_body dbp inp (?nt - 1)) [0..<?nh] ?st)"
  let ?last = "?nh - 1"
  have nt: "?nt = Suc (?nt - 1)" and nh: "0 < ?nh" and last: "?last < ?nh"
    using assms by auto
  have TP: "TP_infinite dbp inp = tp_treatment dbp inp (?nt - 1) ?st"
    unfolding TP_infinite_def Let_def by (rule fold_upt_last) (use assms in auto)
  have "feas_inv dbp inp (?nt - 1) (snd ?st)"
    using assms by (intro feas_inv_fold_treatment) auto
  then have "feas_inv dbp inp (Suc (?nt - 1)) ?fe"
    using assms by (intro feas_inv_fold_body) simp_all
  then have inv: "feas_inv dbp inp ?nt ?fe" using nt by simp
  then have cells: "length ?fe = ?nh" "\<And>h. h < ?nh \<Longrightarrow> length (?fe ! h) = ?nt"
    "\<And>h j. h < ?nh \<Longrightarrow> j < ?nt \<Longrightarrow> ?fe ! h ! j = Some (tp_feasible dbp inp h j)"
    by (simp_all add: feas_inv_def)
  have row: "?fe ! ?last = map Some (map (tp_feasible dbp inp ?last) [0..<?nt])"
    using cells(2,3) [OF last] by (intro nth_equalityI) simp_all
  have ne: "map (tp_feasible dbp inp ?last) [0..<?nt] \<noteq> []" using assms by auto
  have mx: "np_max (?fe ! ?last) = Some (Max (tp_feasible dbp inp ?last ` {0..<?nt}))"
    unfolding row using np_max_Some [OF ne] by simp
  have "Max (tp_feasible dbp inp ?last ` {0..<?nt}) = 0
        \<longleftrightarrow> (\<forall>j<?nt. tp_feasible dbp inp ?last j = 0)"
  proof
    assume m0: "Max (tp_feasible dbp inp ?last ` {0..<?nt}) = 0"
    show "\<forall>j<?nt. tp_feasible dbp inp ?last j = 0"
    proof (intro allI impI)
      fix k assume "k < ?nt"
      then have "tp_feasible dbp inp ?last k \<le> Max (tp_feasible dbp inp ?last ` {0..<?nt})"
        by (intro Max_ge) auto
      then show "tp_feasible dbp inp ?last k = 0"
        using m0 tp_feasible_01 [of dbp inp ?last k] by auto
    qed
  next
    assume "\<forall>j<?nt. tp_feasible dbp inp ?last j = 0"
    then have "tp_feasible dbp inp ?last ` {0..<?nt} = {0}" using assms(2) by auto
    then show "Max (tp_feasible dbp inp ?last ` {0..<?nt}) = 0" by simp
  qed
  then have fire: "np_max (?fe ! ?last) = Some 0
        \<longleftrightarrow> (\<forall>j<?nt. tp_feasible dbp inp ?last j = 0)"
    using mx by simp
  show ?thesis
    unfolding TP snd_tp_treatment Let_def
    using fire cells assms last by (auto simp: nth_set2)
qed

lemma new_risk_nonneg: "0 \<le> r \<Longrightarrow> 0 \<le> new_risk s sl r k"
  by (simp add: new_risk_def)

lemma tp_row_dead:
  "h = 6 \<or> h = 7 \<or> h = 8 \<or> h = 9 \<Longrightarrow> tp_row inp h j = (\<lambda>t. 0)(9 := 1)"
  by (simp add: tp_row_def tp_row_step_def)

lemma tp_row_live:
  assumes "h < 6"
  shows "tp_row inp h j =
    (let risk0 = new_risk (tp_sbpreduc inp h j) (riskslope inp) (periodrisk inp ! h ! 0) 0;
         risk1 = new_risk (tp_sbpreduc inp h j) (riskslope inp) (periodrisk inp ! h ! 1) 1
     in allocate_row (min 1 (strokedeath inp * risk1)) (min 1 (chddeath inp * risk0))
          (min 1 (alldeath inp)) (min 1 ((1 - strokedeath inp) * risk1))
          (min 1 ((1 - chddeath inp) * risk0)) (alternate h) (\<lambda>t. 0))"
  using assms by (simp add: tp_row_def tp_row_step_def)

lemma tp_row_distribution:
  fixes inp :: tp_input and h j :: nat
  assumes risk: "0 \<le> periodrisk inp ! h ! 0" "0 \<le> periodrisk inp ! h ! 1"
    and rates: "0 \<le> chddeath inp" "chddeath inp \<le> 1" "0 \<le> strokedeath inp"
      "strokedeath inp \<le> 1" "0 \<le> alldeath inp"
    and h: "h < 10"
  defines "f \<equiv> tp_row inp h j"
  shows "0 \<le> f t" and "f 0 + f 1 + f 2 + f 3 + f 4 + f 5 + f 6 + f 7 + f 8 + f 9 = 1"
proof -
  consider (dead) "h = 6 \<or> h = 7 \<or> h = 8 \<or> h = 9" | (live) "h < 6"
    using h by linarith
  then have "0 \<le> f t \<and> f 0 + f 1 + f 2 + f 3 + f 4 + f 5 + f 6 + f 7 + f 8 + f 9 = 1"
  proof cases
    case dead
    then show ?thesis by (simp add: f_def tp_row_dead)
  next
    case live
    let ?r0 = "new_risk (tp_sbpreduc inp h j) (riskslope inp) (periodrisk inp ! h ! 0) 0"
    let ?r1 = "new_risk (tp_sbpreduc inp h j) (riskslope inp) (periodrisk inp ! h ! 1) 1"
    have r: "0 \<le> ?r0" "0 \<le> ?r1" using risk by (simp_all add: new_risk_nonneg)
    have p: "0 \<le> min 1 (strokedeath inp * ?r1)" "min 1 (strokedeath inp * ?r1) \<le> 1"
      "0 \<le> min 1 (chddeath inp * ?r0)" "0 \<le> min 1 (alldeath inp)"
      "0 \<le> min 1 ((1 - strokedeath inp) * ?r1)" "0 \<le> min 1 ((1 - chddeath inp) * ?r0)"
      using r rates by simp_all
    show ?thesis
      unfolding f_def tp_row_live [OF live] Let_def
      by (rule conjI [OF allocate_row_zero(1) [OF p alternate_less]
            allocate_row_zero(2) [OF p alternate_less]])
  qed
  then show "0 \<le> f t" and "f 0 + f 1 + f 2 + f 3 + f 4 + f 5 + f 6 + f 7 + f 8 + f 9 = 1"
    by simp_all
qed

section \<open>Every row of the transition tensor is a distribution\<close>

text \<open>
  Claim C1. For every health state \<open>h\<close> in 0..9 and every action \<open>a\<close>, the row
  \<open>P[h, :, a]\<close> returned by \<open>TP_infinite\<close> has ten non-negative entries that sum
  to exactly 1, also where the allocation clipped a step and stopped early, provided
  the period risks and the three death rates lie between 0 and 1. (The inputs are
  well shaped, \<open>wf_input\<close>: ten states, two events, positive relative-risk slopes.)
\<close>

theorem TP_infinite_rows_are_distributions:
  assumes wf: "wf_input inp"
    and risk: "\<forall>h<10. \<forall>k<2. 0 \<le> periodrisk inp ! h ! k \<and> periodrisk inp ! h ! k \<le> 1"
    and rates: "0 \<le> chddeath inp" "chddeath inp \<le> 1" "0 \<le> strokedeath inp"
      "strokedeath inp \<le> 1" "0 \<le> alldeath inp" "alldeath inp \<le> 1"
    and h: "h < 10" and a: "a < length (alldrugs inp)"
  shows "length (slice (fst (TP_infinite dbp inp)) h a) = 10
    \<and> list_all (\<lambda>p. 0 \<le> p) (slice (fst (TP_infinite dbp inp)) h a)
    \<and> sum_list (slice (fst (TP_infinite dbp inp)) h a) = 1"
proof -
  have len: "length (periodrisk inp) = 10" using wf by (simp add: wf_input_def)
  have sl: "slice (fst (TP_infinite dbp inp)) h a = map (tp_row inp h a) [0..<10]"
    using len h a by (rule slice_TP_infinite)
  have r: "0 \<le> periodrisk inp ! h ! 0" "0 \<le> periodrisk inp ! h ! 1"
    using risk h by simp_all
  note d = tp_row_distribution [OF r rates(1-5) h]
  show ?thesis
    unfolding sl using d(1) [of a] d(2) [of a]
    by (simp add: upt_10 list_all_iff)
qed

lemma c1_clipped_row:
  "slice (fst (TP_infinite no_dbp_effect c1_input)) 0 0 = [0, 0, 0, 0, 0, 0, 0, 0.4, 0.6, 0]"
proof -
  have "slice (fst (TP_infinite no_dbp_effect c1_input)) 0 0 = map (tp_row c1_input 0 0) [0..<10]"
    by (rule slice_TP_infinite) (simp_all add: c1_input_def)
  then show ?thesis
    by (simp add: upt_10 tp_row_live Let_def tp_sbpreduc_def new_risk_def allocate_row_def
          c1_input_def)
qed

text \<open>
  The witness is a row where the second step is clipped: 0.6 goes to stroke death, the
  remaining 0.4 to CHD death, and the allocation stops.
\<close>

theorem TP_infinite_rows_are_distributions_witness:
  "wf_input c1_input
   \<and> slice (fst (TP_infinite no_dbp_effect c1_input)) 0 0 = [0, 0, 0, 0, 0, 0, 0, 0.4, 0.6, 0]
   \<and> length (slice (fst (TP_infinite no_dbp_effect c1_input)) 0 0) = 10
   \<and> list_all (\<lambda>p. 0 \<le> p) (slice (fst (TP_infinite no_dbp_effect c1_input)) 0 0)
   \<and> sum_list (slice (fst (TP_infinite no_dbp_effect c1_input)) 0 0) = 1"
proof -
  have wf: "wf_input c1_input" by (simp add: wf_input_def c1_input_def)
  have risk: "\<forall>h<10. \<forall>k<2. 0 \<le> periodrisk c1_input ! h ! k \<and> periodrisk c1_input ! h ! k \<le> 1"
    by (auto simp: c1_input_def less_2_cases_iff)
  have rates: "0 \<le> chddeath c1_input" "chddeath c1_input \<le> 1" "0 \<le> strokedeath c1_input"
    "strokedeath c1_input \<le> 1" "0 \<le> alldeath c1_input" "alldeath c1_input \<le> 1"
    by (simp_all add: c1_input_def)
  have "(0::nat) < 10" "0 < length (alldrugs c1_input)" by (simp_all add: c1_input_def)
  from TP_infinite_rows_are_distributions [OF wf risk rates this, of no_dbp_effect] wf
    c1_clipped_row
  show ?thesis by simp
qed

lemma replicate_10: "replicate 10 x = [x, x, x, x, x, x, x, x, x, x]"
  by (simp add: numeral_eq_Suc)

lemma allocate_row_only_p6:
  fixes p6 :: real
  assumes "p6 \<le> 1" "alt < 4"
  shows "map (allocate_row 0 0 p6 0 0 alt (\<lambda>t. 0)) [0..<10] =
         (replicate 10 0)[6 := p6, alt := 1 - p6]"
proof -
  from assms(2) have "alt = 0 \<or> alt = 1 \<or> alt = 2 \<or> alt = 3" by arith
  moreover have "1 \<le> p6 \<Longrightarrow> p6 = 1" using assms(1) by simp
  ultimately show ?thesis
    by (auto simp: allocate_row_def upt_10 replicate_10)
qed

lemma tp_row_zero_risk:
  assumes "periodrisk inp ! h ! 0 = 0" "periodrisk inp ! h ! 1 = 0" "h < 6"
  shows "tp_row inp h j = allocate_row 0 0 (min 1 (alldeath inp)) 0 0 (alternate h) (\<lambda>t. 0)"
  using assms by (simp add: tp_row_live new_risk_def)

lemma slice_zero_risk:
  assumes "length (periodrisk inp) = 10"
    and "periodrisk inp ! h ! 0 = 0" "periodrisk inp ! h ! 1 = 0"
    and "h < 6" "a < length (alldrugs inp)"
  shows "slice (fst (TP_infinite dbp inp)) h a =
         (replicate 10 0)[6 := min 1 (alldeath inp), alternate h := 1 - min 1 (alldeath inp)]"
proof -
  have "slice (fst (TP_infinite dbp inp)) h a = map (tp_row inp h a) [0..<10]"
    using assms by (intro slice_TP_infinite) simp_all
  also have "\<dots> = map (allocate_row 0 0 (min 1 (alldeath inp)) 0 0 (alternate h) (\<lambda>t. 0)) [0..<10]"
    using assms by (simp only: tp_row_zero_risk)
  also have "\<dots> = (replicate 10 0)[6 := min 1 (alldeath inp),
                                   alternate h := 1 - min 1 (alldeath inp)]"
    by (rule allocate_row_only_p6) (simp_all add: alternate_less)
  finally show ?thesis .
qed

section \<open>Zero event risk\<close>

text \<open>
  Claim C5 says that with zero period risk every live row puts probability 1 on the
  state's alternate target, for any death rates. The non-CVD death rate is not
  multiplied by a risk (line 95), so it keeps its share: with a rate of one percent the
  Healthy row of the no-treatment action is 0.99 on Healthy and 0.01 on non-CVD death.
\<close>

theorem zero_risk_row_counterexample:
  "periodrisk c5_input = replicate 10 [0, 0]
   \<and> slice (fst (TP_infinite no_dbp_effect c5_input)) 0 0
       = [0.99, 0, 0, 0, 0, 0, 0.01, 0, 0, 0]
   \<and> slice (fst (TP_infinite no_dbp_effect c5_input)) 0 0 \<noteq> (replicate 10 0)[alternate 0 := 1]"
proof -
  have "slice (fst (TP_infinite no_dbp_effect c5_input)) 0 0 =
        (replicate 10 0)[6 := min 1 (alldeath c5_input),
                         alternate 0 := 1 - min 1 (alldeath c5_input)]"
    by (rule slice_zero_risk) (simp_all add: c5_input_def)
  then show ?thesis
    by (simp add: c5_input_def alternate_def replicate_10)
qed

text \<open>
  Claim C5, amended. If the period risk is 0 for every state and both event types, then
  for every live state \<open>h\<close> and every action \<open>a\<close> the row puts \<open>min(1, alldeath)\<close> on
  non-CVD death (state 6), the rest on the alternate target of \<open>h\<close> and 0 everywhere
  else, whatever the CHD and stroke death rates are; it puts probability 1 on the
  alternate target when moreover the non-CVD death rate is 0.
\<close>

theorem zero_risk_row:
  assumes "wf_input inp"
    and "\<forall>h<10. \<forall>k<2. periodrisk inp ! h ! k = 0"
    and "h < 6" "a < length (alldrugs inp)"
  shows "slice (fst (TP_infinite dbp inp)) h a =
           (replicate 10 0)[6 := min 1 (alldeath inp), alternate h := 1 - min 1 (alldeath inp)]
       \<and> (alldeath inp = 0 \<longrightarrow>
            slice (fst (TP_infinite dbp inp)) h a = (replicate 10 0)[alternate h := 1])"
proof -
  have len: "length (periodrisk inp) = 10" using assms(1) by (simp add: wf_input_def)
  have z: "periodrisk inp ! h ! 0 = 0" "periodrisk inp ! h ! 1 = 0"
    using assms(2,3) by simp_all
  have row: "slice (fst (TP_infinite dbp inp)) h a =
           (replicate 10 0)[6 := min 1 (alldeath inp), alternate h := 1 - min 1 (alldeath inp)]"
    using len z assms(3,4) by (rule slice_zero_risk)
  have "alternate h \<noteq> 6" using alternate_less [of h] by simp
  then have "alldeath inp = 0 \<Longrightarrow>
      (replicate 10 0)[6 := min 1 (alldeath inp), alternate h := 1 - min 1 (alldeath inp)]
      = (replicate 10 (0::real))[alternate h := 1]"
    by (simp add: list_update_swap [of 6] list_update_same_conv)
  with row show ?thesis by simp
qed

text \<open>
  The witness takes the CHD-event state under the second action, once with the non-CVD
  death rate of one percent and once with the rate 0.
\<close>

theorem zero_risk_row_witness:
  "wf_input c5_input
   \<and> slice (fst (TP_infinite no_dbp_effect c5_input)) 4 1
       = [0, 0.99, 0, 0, 0, 0, 0.01, 0, 0, 0]
   \<and> alldeath (c5_input\<lparr>alldeath := 0\<rparr>) = 0
   \<and> slice (fst (TP_infinite no_dbp_effect (c5_input\<lparr>alldeath := 0\<rparr>))) 4 1
       = (replicate 10 0)[alternate 4 := 1]"
proof -
  have wf: "wf_input c5_input" "wf_input (c5_input\<lparr>alldeath := 0\<rparr>)"
    by (simp_all add: wf_input_def c5_input_def)
  have z: "\<forall>h<10. \<forall>k<2. periodrisk c5_input ! h ! k = 0"
    "\<forall>h<10. \<forall>k<2. periodrisk (c5_input\<lparr>alldeath := 0\<rparr>) ! h ! k = 0"
    by (auto simp: c5_input_def less_2_cases_iff)
  have a: "(4::nat) < 6" "1 < length (alldrugs c5_input)"
    "1 < length (alldrugs (c5_input\<lparr>alldeath := 0\<rparr>))"
    by (simp_all add: c5_input_def)
  from zero_risk_row [OF wf(1) z(1) a(1,2), of no_dbp_effect]
  have "slice (fst (TP_infinite no_dbp_effect c5_input)) 4 1
       = [0, 0.99, 0, 0, 0, 0, 0.01, 0, 0, 0]"
    by (simp add: c5_input_def alternate_def replicate_10)
  moreover from zero_risk_row [OF wf(2) z(2) a(1,3), of no_dbp_effect]
  have "slice (fst (TP_infinite no_dbp_effect (c5_input\<lparr>alldeath := 0\<rparr>))) 4 1
       = (replicate 10 0)[alternate 4 := 1]"
    by (simp add: alternate_def replicate_10)
  ultimately show ?thesis using wf(1) by simp
qed

lemma length_feasible_fold_treatment:
  "length (snd (fold (tp_treatment dbp inp) [0..<m] st)) = length (snd st)"
  "length (snd (fold (tp_treatment dbp inp) [0..<m] st) ! h) = length (snd st ! h)"
  by (induction m) (simp_all add: snd_tp_treatment Let_def)

lemma length_feasible_TP_infinite:
  "length (snd (TP_infinite dbp inp)) = length (periodrisk inp)"
  "h < length (periodrisk inp) \<Longrightarrow>
     length (snd (TP_infinite dbp inp) ! h) = length (alldrugs inp)"
  by (simp_all add: TP_infinite_def Let_def length_feasible_fold_treatment)

lemma c2_sbp_reduction:
  "sbp_reductions (Suc 0) 154 [[''NT''], [''TH'', ''BB'', ''ACE'', ''ARB'', ''CCB'']] = 37.43548"
  by (simp add: sbp_reductions_def thiazides_def betablock_def aceinhibitors_def arb_def
        calciumcb_def)

lemma c2_infeasible: "h < 10 \<Longrightarrow> j < 2 \<Longrightarrow> tp_feasible dbp c2_input h j = 0"
  by (auto simp: tp_feasible_def mark_feasible_def tp_sbpreduc_def Let_def c2_input_def
        c2_sbp_reduction less_2_cases_iff)

section \<open>The no-treatment fallback\<close>

text \<open>
  Claim C2 says that after the sweep every health state has a feasible action, the
  no-treatment action being forced feasible where the bound checks rejected all. The
  check of lines 117 and 118 runs once per treatment with \<open>h\<close> at the last state, so
  only state 9 gets the fallback. For the patient \<open>c2_input\<close> the bound checks reject
  both actions in every state (154 is above the upper bound, and five drugs bring it to
  116.56, below the lower one), whatever the diastolic dose response is: the states 0 to
  8 end without a feasible action.
\<close>

theorem fallback_only_for_last_state:
  "snd (TP_infinite dbp c2_input) = replicate 9 [Some 0, Some 0] @ [[Some 1, Some 0]]"
proof (rule nth_equalityI)
  show "length (snd (TP_infinite dbp c2_input))
      = length (replicate 9 [Some 0, Some 0] @ [[Some 1, Some (0::real)]])"
    by (simp add: length_feasible_TP_infinite c2_input_def)
next
  fix h assume "h < length (snd (TP_infinite dbp c2_input))"
  then have h: "h < 10" by (simp add: length_feasible_TP_infinite c2_input_def)
  have len: "length (periodrisk c2_input) = 10" "length (alldrugs c2_input) = 2"
    by (simp_all add: c2_input_def)
  have all0: "\<forall>j<2. tp_feasible dbp c2_input 9 j = 0"
    by (simp add: c2_infeasible)
  have "snd (TP_infinite dbp c2_input) ! h = (if h = 9 then [Some 1, Some 0] else [Some 0, Some 0])"
  proof (rule nth_equalityI)
    show "length (snd (TP_infinite dbp c2_input) ! h)
        = length (if h = 9 then [Some 1, Some 0] else [Some 0, Some (0::real)])"
      using h by (simp add: length_feasible_TP_infinite len)
  next
    fix j assume "j < length (snd (TP_infinite dbp c2_input) ! h)"
    then have j: "j < 2" using h by (simp add: length_feasible_TP_infinite len)
    have "snd (TP_infinite dbp c2_input) ! h ! j =
        (if h = 9 \<and> j = 0 then Some 1 else Some 0)"
      using h j all0 by (simp add: feasible_TP_infinite len c2_infeasible)
    then show "snd (TP_infinite dbp c2_input) ! h ! j
        = (if h = 9 then [Some 1, Some 0] else [Some 0, Some 0]) ! j"
      using j by (auto simp: less_2_cases_iff)
  qed
  then show "snd (TP_infinite dbp c2_input) ! h
      = (replicate 9 [Some 0, Some 0] @ [[Some 1, Some 0]]) ! h"
    using h by (auto simp: nth_append)
qed

section \<open>The bound checks\<close>

text \<open>
  Claim C4 says that an action \<open>j > 0\<close> is marked feasible if and only if the
  post-treatment pressures are at least the lower bounds and both reductions are
  non-negative. Line 61 tests \<open>pretrtsbp[h] < 0\<close> where the guideline engines test
  \<open>sbpreduc < 0\<close>. For the patient \<open>c4_input\<close> the ACE inhibitor has the systolic
  reduction \<open>-0.9\<close> and is marked feasible as soon as the diastolic half of the check
  passes.
\<close>

theorem negative_sbp_reduction_marked_feasible:
  assumes "0 \<le> dbp 1 40 (alldrugs c4_input)"
    and "dbpmin c4_input \<le> 40 - dbp 1 40 (alldrugs c4_input)"
  shows "sbp_reductions 1 (pretrtsbp c4_input ! 0) (alldrugs c4_input) = - 0.9
    \<and> snd (TP_infinite dbp c4_input) ! 0 ! 1 = Some 1"
proof -
  have red: "sbp_reductions 1 (pretrtsbp c4_input ! 0) (alldrugs c4_input) = - 0.9"
    by (simp add: c4_input_def sbp_reductions_def aceinhibitors_def)
  have "tp_feasible dbp c4_input 0 1 = 1"
    using assms red
    by (simp add: tp_feasible_def mark_feasible_def tp_sbpreduc_def tp_dbpreduc_def Let_def
          c4_input_def)
  moreover have "snd (TP_infinite dbp c4_input) ! 0 ! 1 = Some (tp_feasible dbp c4_input 0 1)"
    by (subst feasible_TP_infinite) (simp_all add: c4_input_def)
  ultimately show ?thesis using red by simp
qed

theorem negative_sbp_reduction_marked_feasible_witness:
  "0 \<le> no_dbp_effect 1 40 (alldrugs c4_input)
   \<and> dbpmin c4_input \<le> 40 - no_dbp_effect 1 40 (alldrugs c4_input)
   \<and> sbp_reductions 1 (pretrtsbp c4_input ! 0) (alldrugs c4_input) = - 0.9
   \<and> snd (TP_infinite no_dbp_effect c4_input) ! 0 ! 1 = Some 1"
proof -
  have h: "0 \<le> no_dbp_effect 1 40 (alldrugs c4_input)"
    "dbpmin c4_input \<le> 40 - no_dbp_effect 1 40 (alldrugs c4_input)"
    by (simp_all add: no_dbp_effect_def c4_input_def)
  from negative_sbp_reduction_marked_feasible [of no_dbp_effect, OF h] h show ?thesis by simp
qed

lemma fold_update_upt:
  "n \<le> length xs \<Longrightarrow> fold (\<lambda>s xs. xs[s := f s]) [0..<n] xs = map f [0..<n] @ drop n xs"
proof (induction n)
  case 0
  then show ?case by simp
next
  case (Suc n)
  then have "fold (\<lambda>s xs. xs[s := f s]) [0..<Suc n] xs = (map f [0..<n] @ drop n xs)[n := f n]"
    by simp
  also have "\<dots> = map f [0..<n] @ (drop n xs)[0 := f n]"
    by (simp add: list_update_append)
  also have "(drop n xs)[0 := f n] = f n # drop (Suc n) xs"
    using Suc.prems Cons_nth_drop_Suc [of n xs, symmetric] by simp
  finally show ?case by simp
qed

lemma evaluate_pi_sweep_map:
  "length V = length P \<Longrightarrow>
   evaluate_pi_sweep pol P r gamma V_old V =
     map (\<lambda>s. r ! s ! (pol ! s) + gamma * dot (slice P s (pol ! s)) V_old) [0..<length P]"
  by (simp add: evaluate_pi_sweep_def Let_def fold_update_upt)

lemma evaluate_events_sweep_map:
  "length E = length P \<Longrightarrow>
   evaluate_events_sweep pol P e gamma E_old E =
     map (\<lambda>s. e ! s + gamma * dot (slice P s (pol ! s)) E_old) [0..<length P]"
  by (simp add: evaluate_events_sweep_def Let_def fold_update_upt)

lemma evaluate_loops_agree:
  assumes "\<forall>s<length P. r ! s ! (pol ! s) = e ! s" "length V = length P"
  shows "evaluate_events_loop pol P e gamma tolerance n V
       = evaluate_pi_loop pol P r gamma tolerance n V"
  using assms(2)
proof (induction n arbitrary: V)
  case 0
  then show ?case by simp
next
  case (Suc n)
  have sweep: "evaluate_events_sweep pol P e gamma V V = evaluate_pi_sweep pol P r gamma V V"
    using assms(1) Suc.prems
    by (simp add: evaluate_events_sweep_map evaluate_pi_sweep_map)
  have "length (evaluate_pi_sweep pol P r gamma V V) = length P"
    using Suc.prems by (simp add: evaluate_pi_sweep_map)
  then show ?case
    using Suc.IH [of "evaluate_pi_sweep pol P r gamma V V"] sweep
    by (simp add: Let_def)
qed

lemma event_reward_nth:
  "s < length e \<Longrightarrow> a < A \<Longrightarrow> event_reward e A ! s ! a = e ! s"
  by (simp add: event_reward_def)

section \<open>Expected events are a special case of policy evaluation\<close>

text \<open>
  Claim C8. For every policy, transition tensor \<open>P\<close>, event indicator \<open>e\<close>, discount
  factor, iteration cap and tolerance, \<open>evaluate_events_infinite\<close> returns exactly
  what \<open>evaluate_pi_infinite\<close> returns for the reward matrix \<open>r_e\<close> with
  \<open>r_e[s, a] = e[s]\<close> for every action \<open>a\<close>. (The policy chooses among the \<open>A\<close>
  actions that \<open>r_e\<close> has, and \<open>e\<close> has an entry for every state.)
\<close>

theorem evaluate_events_is_evaluate_pi:
  assumes "\<forall>s<length P. pol ! s < A" and "length P \<le> length e"
  shows "evaluate_events_infinite pol P e gamma max_iterations tolerance
       = evaluate_pi_infinite pol P (event_reward e A) gamma max_iterations tolerance"
proof -
  have "\<forall>s<length P. event_reward e A ! s ! (pol ! s) = e ! s"
    using assms by (simp add: event_reward_nth)
  then have "evaluate_events_loop pol P e gamma tolerance max_iterations (replicate (length P) 0)
      = evaluate_pi_loop pol P (event_reward e A) gamma tolerance max_iterations
          (replicate (length P) 0)"
    by (intro evaluate_loops_agree) simp_all
  then show ?thesis
    by (simp add: evaluate_events_infinite_def evaluate_pi_infinite_def Let_def)
qed

text \<open>
  The witness: two states and two actions, the policy that takes action 1 in state 0,
  events counted in state 1; both evaluations run to the cap of three sweeps.
\<close>

theorem evaluate_events_is_evaluate_pi_witness:
  "evaluate_events_infinite [1, 0] [[[0.5, 0.2], [0.5, 0.8]], [[0, 0], [1, 1]]] [0, 1]
       0.5 3 0.000001
     = evaluate_pi_infinite [1, 0] [[[0.5, 0.2], [0.5, 0.8]], [[0, 0], [1, 1]]]
         (event_reward [0, 1] 2) 0.5 3 0.000001
   \<and> evaluate_events_infinite [1, 0] [[[0.5, 0.2], [0.5, 0.8]], [[0, 0], [1, 1]]] [0, 1]
       0.5 3 0.000001 = Inr [0.64, 1.75]"
proof -
  have h: "\<forall>s<length [[[0.5, 0.2], [0.5, 0.8]], [[0, 0], [1, 1::real]]]. [1, 0] ! s < (2::nat)"
    "length [[[0.5, 0.2], [0.5, 0.8]], [[0, 0], [1, 1::real]]] \<le> length [0, 1::real]"
    by (auto simp: less_Suc_eq)
  have v: "evaluate_events_infinite [1, 0] [[[0.5, 0.2], [0.5, 0.8]], [[0, 0], [1, 1]]] [0, 1]
       0.5 3 0.000001 = Inr [0.64, 1.75]"
    by (simp add: evaluate_events_infinite_def evaluate_events_sweep_map Let_def
          numeral_3_eq_3 max_abs_diff_def dot_def slice_def upt_rec [of 0 2] upt_rec [of 1 2])
  from evaluate_events_is_evaluate_pi [OF h, of "0.5" 3 "0.000001"] v show ?thesis by simp
qed

lemma argmax_scan_props:
  assumes "i = length pre" "best < i" "bestval = (pre @ xs) ! best"
    "\<forall>j<i. (pre @ xs) ! j \<le> bestval" "\<forall>j<best. (pre @ xs) ! j < bestval"
  shows "argmax_scan best bestval i xs < length (pre @ xs)
    \<and> (\<forall>j<length (pre @ xs). (pre @ xs) ! j \<le> (pre @ xs) ! argmax_scan best bestval i xs)
    \<and> (\<forall>j<argmax_scan best bestval i xs.
          (pre @ xs) ! j < (pre @ xs) ! argmax_scan best bestval i xs)"
  using assms
proof (induction xs arbitrary: pre best bestval i)
  case Nil
  then show ?case by auto
next
  case (Cons x xs)
  have xi: "(pre @ x # xs) ! i = x" using Cons.prems(1) by simp
  show ?case
  proof (cases "bestval < x")
    case True
    have 1: "Suc i = length (pre @ [x])" using Cons.prems(1) by simp
    have 2: "i < Suc i" by simp
    have 3: "x = ((pre @ [x]) @ xs) ! i" using xi by simp
    have 4: "\<forall>j<Suc i. ((pre @ [x]) @ xs) ! j \<le> x"
      using Cons.prems(4) True xi by (auto simp: less_Suc_eq)
    have 5: "\<forall>j<i. ((pre @ [x]) @ xs) ! j < x"
      using Cons.prems(4) True by auto
    from Cons.IH [OF 1 2 3 4 5] show ?thesis using True by simp
  next
    case False
    have 1: "Suc i = length (pre @ [x])" using Cons.prems(1) by simp
    have 2: "best < Suc i" using Cons.prems(2) by simp
    have 3: "bestval = ((pre @ [x]) @ xs) ! best" using Cons.prems(3) by simp
    have 4: "\<forall>j<Suc i. ((pre @ [x]) @ xs) ! j \<le> bestval"
      using Cons.prems(4) False xi by (auto simp: less_Suc_eq)
    have 5: "\<forall>j<best. ((pre @ [x]) @ xs) ! j < bestval"
      using Cons.prems(5) by simp
    from Cons.IH [OF 1 2 3 4 5] show ?thesis using False by simp
  qed
qed

lemma np_argmax_props:
  assumes "xs \<noteq> []"
  shows "np_argmax xs < length xs"
    and "\<forall>j<length xs. xs ! j \<le> xs ! np_argmax xs"
    and "\<forall>j<np_argmax xs. xs ! j < xs ! np_argmax xs"
proof -
  obtain x xs' where xs: "xs = x # xs'" using assms by (cases xs) auto
  have "argmax_scan 0 x 1 xs' < length ([x] @ xs')
    \<and> (\<forall>j<length ([x] @ xs'). ([x] @ xs') ! j \<le> ([x] @ xs') ! argmax_scan 0 x 1 xs')
    \<and> (\<forall>j<argmax_scan 0 x 1 xs'. ([x] @ xs') ! j < ([x] @ xs') ! argmax_scan 0 x 1 xs')"
    by (rule argmax_scan_props) simp_all
  then show "np_argmax xs < length xs"
    and "\<forall>j<length xs. xs ! j \<le> xs ! np_argmax xs"
    and "\<forall>j<np_argmax xs. xs ! j < xs ! np_argmax xs"
    by (simp_all add: xs np_argmax_def)
qed

lemma improve_map:
  "length p = length P \<Longrightarrow>
   improve P r gamma V p = map (\<lambda>s. np_argmax (Q_values P r gamma V s)) [0..<length P]"
  by (simp add: improve_def fold_update_upt)

lemma length_improve: "length p = length P \<Longrightarrow> length (improve P r gamma V p) = length P"
  by (simp add: improve_map)

lemma length_policy_sequence:
  "length p = length P \<Longrightarrow>
   length (policy_sequence P r gamma max_iterations tolerance p k) = length P"
  by (induction k) (simp_all add: length_improve)

lemma policy_sequence_shift:
  "policy_sequence P r gamma max_iterations tolerance p (Suc k) =
   policy_sequence P r gamma max_iterations tolerance
     (policy_sequence P r gamma max_iterations tolerance p 1) k"
  by (induction k) simp_all

lemma length_evaluate_pi_loop:
  "length V = length P \<Longrightarrow> length (evaluate_pi_loop pol P r gamma tolerance n V) = length P"
proof (induction n arbitrary: V)
  case 0
  then show ?case by simp
next
  case (Suc n)
  have "length (evaluate_pi_sweep pol P r gamma V V) = length P"
    using Suc.prems by (simp add: evaluate_pi_sweep_map)
  then show ?case using Suc.IH by (simp add: Let_def)
qed

lemma length_policy_value:
  "length (policy_value P r gamma max_iterations tolerance p) = length P"
  by (simp add: policy_value_def length_evaluate_pi_loop)

lemma evaluate_pi_infinite_value:
  "0 < length P \<Longrightarrow>
   evaluate_pi_infinite p P r gamma max_iterations tolerance =
     Inr (policy_value P r gamma max_iterations tolerance p)"
  by (simp add: evaluate_pi_infinite_def policy_value_def Let_def)

lemma dot_sum:
  "length xs = n \<Longrightarrow> length ys = n \<Longrightarrow> dot xs ys = (\<Sum>i<n. xs ! i * ys ! i)"
proof -
  assume len: "length xs = n" "length ys = n"
  have "map2 (*) xs ys = map (\<lambda>i. xs ! i * ys ! i) [0..<n]"
    using len by (intro nth_equalityI) simp_all
  then show ?thesis
    by (simp add: dot_def sum_list_sum_nth atLeast0LessThan)
qed

lemma Q_values_bellman:
  assumes "wf_mdp P" "length V = length P" "s < length P" "a < num_actions P"
  shows "Q_values P r gamma V s ! a = bellman_q P r gamma V s a"
proof -
  have "length (slice P s a) = length P" using assms by (simp add: slice_def wf_mdp_def)
  then have "dot (slice P s a) V = (\<Sum>s'<length P. slice P s a ! s' * V ! s')"
    using assms(2) by (intro dot_sum) simp_all
  also have "\<dots> = (\<Sum>s'<length P. P ! s ! s' ! a * V ! s')"
    using assms by (intro sum.cong) (simp_all add: slice_def wf_mdp_def)
  finally show ?thesis using assms(4) by (simp add: Q_values_def bellman_q_def)
qed

lemma improve_greedy:
  assumes "wf_mdp P" "length V = length P" "length p = length P" "s < length P"
  shows "greedy_first P r gamma V s (improve P r gamma V p ! s)"
proof -
  let ?Q = "Q_values P r gamma V s"
  have len: "length ?Q = num_actions P" by (simp add: Q_values_def)
  then have ne: "?Q \<noteq> []" using assms(1) by (auto simp: wf_mdp_def)
  have imp: "improve P r gamma V p ! s = np_argmax ?Q"
    using assms(3,4) by (simp add: improve_map)
  note am = np_argmax_props [OF ne]
  have a: "np_argmax ?Q < num_actions P" using am(1) len by simp
  have q: "?Q ! b = bellman_q P r gamma V s b" if "b < num_actions P" for b
    using assms(1,2,4) that by (rule Q_values_bellman)
  have "\<forall>b<num_actions P. bellman_q P r gamma V s b \<le> bellman_q P r gamma V s (np_argmax ?Q)"
    using am(2) len q a by auto
  moreover have "\<forall>b<np_argmax ?Q. bellman_q P r gamma V s b < bellman_q P r gamma V s (np_argmax ?Q)"
    using am(3) q a by auto
  ultimately show ?thesis using a by (simp add: greedy_first_def imp)
qed

lemma policy_iteration_loop_rounds:
  assumes "0 < length P" "length p = length P" "0 < n"
  shows "\<exists>k. 1 \<le> k \<and> k \<le> n
    \<and> policy_iteration_loop P r gamma max_iterations tolerance n p V0 =
        Inr (policy_sequence P r gamma max_iterations tolerance p k,
             Some (policy_value P r gamma max_iterations tolerance
                     (policy_sequence P r gamma max_iterations tolerance p (k - 1))))
    \<and> (policy_sequence P r gamma max_iterations tolerance p k =
         policy_sequence P r gamma max_iterations tolerance p (k - 1) \<or> k = n)
    \<and> (\<forall>i. 1 \<le> i \<and> i < k \<longrightarrow>
          policy_sequence P r gamma max_iterations tolerance p i \<noteq>
          policy_sequence P r gamma max_iterations tolerance p (i - 1))"
  using assms(2,3)
proof (induction n arbitrary: p V0)
  case 0
  then show ?case by simp
next
  case (Suc n)
  let ?seq = "policy_sequence P r gamma max_iterations tolerance"
  let ?val = "policy_value P r gamma max_iterations tolerance"
  let ?loop = "policy_iteration_loop P r gamma max_iterations tolerance"
  let ?p' = "improve P r gamma (?val p) p"
  have p1: "?seq p 1 = ?p'" by simp
  have step: "?loop (Suc n) p V0 =
      (if ?p' = p then Inr (?p', Some (?val p)) else ?loop n ?p' (Some (?val p)))"
    using assms(1) by (simp add: evaluate_pi_infinite_value Let_def)
  show ?case
  proof (cases "?p' = p \<or> n = 0")
    case True
    then have "?loop (Suc n) p V0 = Inr (?seq p 1, Some (?val (?seq p 0)))"
      using step by auto
    moreover have "?seq p 1 = ?seq p (1 - 1) \<or> 1 = Suc n" using True by auto
    ultimately show ?thesis
      by (intro exI [of _ 1]) (simp del: policy_sequence.simps)
  next
    case False
    then have ne: "?p' \<noteq> p" and n: "0 < n" by auto
    have len: "length ?p' = length P" using Suc.prems(1) by (simp add: length_improve)
    from Suc.IH [OF len n, of "Some (?val p)"] obtain k where k: "1 \<le> k" "k \<le> n"
      "?loop n ?p' (Some (?val p)) = Inr (?seq ?p' k, Some (?val (?seq ?p' (k - 1))))"
      "?seq ?p' k = ?seq ?p' (k - 1) \<or> k = n"
      "\<forall>i. 1 \<le> i \<and> i < k \<longrightarrow> ?seq ?p' i \<noteq> ?seq ?p' (i - 1)"
      by blast
    have shift: "?seq ?p' j = ?seq p (Suc j)" for j
      using policy_sequence_shift [of P r gamma max_iterations tolerance p j] p1 by simp
    have k1: "Suc (k - 1) = k" using k(1) by simp
    have a: "?loop (Suc n) p V0 = Inr (?seq p (Suc k), Some (?val (?seq p (Suc k - 1))))"
      using step ne k(3) shift [of k] shift [of "k - 1"] k1 by simp
    have b: "?seq p (Suc k) = ?seq p (Suc k - 1) \<or> Suc k = Suc n"
      using k(4) shift [of k] shift [of "k - 1"] k1 by auto
    have c: "\<forall>i. 1 \<le> i \<and> i < Suc k \<longrightarrow> ?seq p i \<noteq> ?seq p (i - 1)"
    proof (intro allI impI)
      fix i assume i: "1 \<le> i \<and> i < Suc k"
      show "?seq p i \<noteq> ?seq p (i - 1)"
      proof (cases "i = 1")
        case True
        then show ?thesis using ne by simp
      next
        case False
        then obtain j where j: "i = Suc j" "1 \<le> j" "j < k" using i by (cases i) auto
        then have "?seq ?p' j \<noteq> ?seq ?p' (j - 1)" using k(5) by blast
        then show ?thesis using shift [of j] shift [of "j - 1"] j by simp
      qed
    qed
    show ?thesis
      using a b c k(1,2) by (intro exI [of _ "Suc k"]) (simp del: policy_sequence.simps)
  qed
qed

section \<open>Policy iteration\<close>

text \<open>
  Claim C6. \<open>policy_improvement_infinite\<close> alternates a full policy evaluation with a
  greedy improvement step that sets \<open>\<pi>(s)\<close> to the first maximiser of
  \<open>r(s,a) + \<gamma> \<Sum>\<^sub>s\<^sub>' P(s,s',a) V(s')\<close>, and stops when the policy is unchanged between
  two consecutive rounds or the cap is reached; at the fixed point no state has a
  strictly better action under the returned value function.

  In the theorem, \<open>k\<close> is the number of rounds that ran. The policy returned is the
  \<open>k\<close>-th of the sequence, the value function returned is the evaluation of the policy
  before it; the loop stopped at the first round that did not change the policy, or at
  the cap; the returned policy is greedy for the returned value function in every
  state, with the lowest index among the maximisers; and when the loop stopped at an
  unchanged policy, the value function is the evaluation of the returned policy itself,
  which the improvement step maps to itself.
\<close>

theorem policy_improvement_infinite_greedy:
  assumes "wf_mdp P" "length drawn = length P" "0 < max_iterations"
  shows "\<exists>pi_opt V_opt k.
      policy_improvement_infinite drawn P r gamma max_iterations tolerance = Inr (pi_opt, V_opt)
    \<and> 1 \<le> k \<and> k \<le> max_iterations
    \<and> pi_opt = policy_sequence P r gamma max_iterations tolerance drawn k
    \<and> V_opt = policy_value P r gamma max_iterations tolerance
                 (policy_sequence P r gamma max_iterations tolerance drawn (k - 1))
    \<and> (pi_opt = policy_sequence P r gamma max_iterations tolerance drawn (k - 1)
         \<or> k = max_iterations)
    \<and> (\<forall>i. 1 \<le> i \<and> i < k \<longrightarrow>
          policy_sequence P r gamma max_iterations tolerance drawn i \<noteq>
          policy_sequence P r gamma max_iterations tolerance drawn (i - 1))
    \<and> (\<forall>s<length P. greedy_first P r gamma V_opt s (pi_opt ! s))
    \<and> (pi_opt = policy_sequence P r gamma max_iterations tolerance drawn (k - 1) \<longrightarrow>
          V_opt = policy_value P r gamma max_iterations tolerance pi_opt
          \<and> improve P r gamma V_opt pi_opt = pi_opt)"
proof -
  let ?seq = "policy_sequence P r gamma max_iterations tolerance drawn"
  let ?val = "policy_value P r gamma max_iterations tolerance"
  have S: "0 < length P" and A: "num_actions P \<noteq> 0" using assms(1) by (simp_all add: wf_mdp_def)
  from policy_iteration_loop_rounds [OF S assms(2,3), of r gamma max_iterations tolerance None]
  obtain k where k: "1 \<le> k" "k \<le> max_iterations"
    "policy_iteration_loop P r gamma max_iterations tolerance max_iterations drawn None =
       Inr (?seq k, Some (?val (?seq (k - 1))))"
    "?seq k = ?seq (k - 1) \<or> k = max_iterations"
    "\<forall>i. 1 \<le> i \<and> i < k \<longrightarrow> ?seq i \<noteq> ?seq (i - 1)"
    by blast
  have res: "policy_improvement_infinite drawn P r gamma max_iterations tolerance =
      Inr (?seq k, ?val (?seq (k - 1)))"
    using A k(3) by (simp add: policy_improvement_infinite_def)
  have k1: "Suc (k - 1) = k" using k(1) by simp
  have next_policy: "?seq k = improve P r gamma (?val (?seq (k - 1))) (?seq (k - 1))"
    using policy_sequence.simps(2) [of P r gamma max_iterations tolerance drawn "k - 1"] k1
    by simp
  have greedy: "\<forall>s<length P. greedy_first P r gamma (?val (?seq (k - 1))) s (?seq k ! s)"
    unfolding next_policy
    using assms(1,2)
    by (auto intro!: improve_greedy simp: length_policy_value length_policy_sequence)
  have fixed: "?seq k = ?seq (k - 1) \<longrightarrow>
      ?val (?seq (k - 1)) = ?val (?seq k)
      \<and> improve P r gamma (?val (?seq (k - 1))) (?seq k) = ?seq k"
    using next_policy by auto
  show ?thesis
    using res k(1,2,4,5) greedy fixed by blast
qed

lemma c6_wf: "wf_mdp c6_P"
  by (auto simp: wf_mdp_def c6_P_def num_actions_def less_Suc_eq numeral_2_eq_2)

lemma c6_run:
  "policy_improvement_infinite [1, 0] c6_P c6_r 0.5 3 0.000001 = Inr ([0, 0], [1.3125, 0])"
  by (simp add: policy_improvement_infinite_def evaluate_pi_infinite_def improve_map
        evaluate_pi_sweep_map Q_values_def np_argmax_def Let_def numeral_3_eq_3
        max_abs_diff_def dot_def slice_def num_actions_def c6_P_def c6_r_def
        upt_rec [of 0 2] upt_rec [of 1 2])

text \<open>
  The witness starts the process above from the policy \<open>[1, 0]\<close> with a cap of three
  rounds of three sweeps: the first round changes the policy to \<open>[0, 0]\<close>, the second
  leaves it unchanged and the loop stops, the tie in state 1 being broken towards
  action 0.
\<close>

theorem policy_improvement_infinite_greedy_witness:
  "wf_mdp c6_P \<and> length [1, 0::nat] = length c6_P \<and> 0 < (3::nat)
   \<and> policy_improvement_infinite [1, 0] c6_P c6_r 0.5 3 0.000001 = Inr ([0, 0], [1.3125, 0])
   \<and> (\<exists>pi_opt V_opt k.
      policy_improvement_infinite [1, 0] c6_P c6_r 0.5 3 0.000001 = Inr (pi_opt, V_opt)
    \<and> 1 \<le> k \<and> k \<le> 3
    \<and> pi_opt = policy_sequence c6_P c6_r 0.5 3 0.000001 [1, 0] k
    \<and> V_opt = policy_value c6_P c6_r 0.5 3 0.000001
                 (policy_sequence c6_P c6_r 0.5 3 0.000001 [1, 0] (k - 1))
    \<and> (pi_opt = policy_sequence c6_P c6_r 0.5 3 0.000001 [1, 0] (k - 1) \<or> k = 3)
    \<and> (\<forall>i. 1 \<le> i \<and> i < k \<longrightarrow>
          policy_sequence c6_P c6_r 0.5 3 0.000001 [1, 0] i \<noteq>
          policy_sequence c6_P c6_r 0.5 3 0.000001 [1, 0] (i - 1))
    \<and> (\<forall>s<length c6_P. greedy_first c6_P c6_r 0.5 V_opt s (pi_opt ! s))
    \<and> (pi_opt = policy_sequence c6_P c6_r 0.5 3 0.000001 [1, 0] (k - 1) \<longrightarrow>
          V_opt = policy_value c6_P c6_r 0.5 3 0.000001 pi_opt
          \<and> improve c6_P c6_r 0.5 V_opt pi_opt = pi_opt))"
proof -
  have len: "length [1, 0::nat] = length c6_P" by (simp add: c6_P_def)
  have cap: "0 < (3::nat)" by simp
  from policy_improvement_infinite_greedy [OF c6_wf len cap, of c6_r "0.5" "0.000001"]
    c6_wf len c6_run
  show ?thesis by simp
qed

section \<open>The monthly loops\<close>

text \<open>
  The loops of the two engines are unfolded one month at a time, by the lemmas of this
  section.
\<close>

declare risk_loop.simps [simp del] aha_loop.simps [simp del] aha_loop2.simps [simp del]

lemma risk_loop_step:
  "month \<le> 12 \<Longrightarrow> nan_ge risk thr \<Longrightarrow>
   risk_loop g sbp dbp smin dmin n risk thr month past pol =
   risk_loop g sbp dbp smin dmin n risk thr (Suc month) (risk_step g sbp dbp smin dmin n past)
     (Some (risk_step g sbp dbp smin dmin n past))"
  by (subst risk_loop.simps) (simp add: Let_def)

lemma risk_loop_exit:
  "\<not> (month \<le> 12 \<and> nan_ge risk thr) \<Longrightarrow>
   risk_loop g sbp dbp smin dmin n risk thr month past pol = pol"
  by (subst risk_loop.simps) auto

lemma risk_loop_runs_all_months:
  assumes "nan_ge risk thr" "month \<le> 12"
  shows "risk_loop g sbp dbp smin dmin n risk thr month past pol =
         Some ((risk_step g sbp dbp smin dmin n ^^ (13 - month)) past)"
  using assms(2)
proof (induction "12 - month" arbitrary: month past pol)
  case 0
  then have m: "month = 12" by simp
  show ?case
    unfolding m
    by (simp add: risk_loop_step [OF _ assms(1)] risk_loop_exit)
next
  case (Suc d)
  then have m: "Suc month \<le> 12" "d = 12 - Suc month" by simp_all
  have "13 - month = Suc (13 - Suc month)" using m(1) by simp
  then show ?case
    using Suc.hyps(1) [OF m(2) m(1)] Suc.prems
    by (simp add: risk_loop_step [OF _ assms(1)] funpow_swap1)
qed

lemma risk_policy_state_enter:
  assumes "post_risk (sbp_reductions_generic 0 sbp) slope risk h = r" "nan_ge r thr"
    "sbps ! h = sbp" "dbps ! h = dbp" "t - d = thr"
  shows "risk_policy_state g risk sbps dbps t d smin dmin slope n h =
         risk_loop g sbp dbp smin dmin n r thr 1 0 None"
  using assms by (simp add: risk_policy_state_def)

lemma fold_update_single: "fold (\<lambda>h xs. xs[h := f h]) [0..<1] [x] = [f 0]"
  by simp

lemma generic_163:
  "sbp_reductions_generic 0 163 = Some 0"
  "sbp_reductions_generic 1 163 = Some 10"
  "sbp_reductions_generic 2 163 = Some 19"
  "sbp_reductions_generic 3 163 = Some 27.1"
  "sbp_reductions_generic 4 163 = Some 34.39"
  "sbp_reductions_generic 5 163 = Some 40.951"
  by (simp_all add: sbp_reductions_generic_def SBPreduc_def Let_def)

lemma sqrt_064: "(0.64::real) powr (1 / 2) = 0.8"
proof -
  have "sqrt (0.64::real) = 0.8"
    by (rule real_sqrt_unique) (simp_all add: power2_eq_square)
  then show ?thesis by (simp add: powr_half_sqrt)
qed

lemma c3_risks:
  "post_risk (sbp_reductions_generic 0 163) [[0.64, 0.64]] [[0.05, 0.03]] 0 = Some 0.08"
  "post_risk (sbp_reductions_generic 1 163) [[0.64, 0.64]] [[0.05, 0.03]] 0 = Some 0.064"
  using sqrt_064 by (simp_all add: generic_163 post_risk_def new_risk_def)

lemma c3_steps:
  assumes "\<forall>k\<in>{1..5}. \<not> nan_less (g k 80) 0 \<and> \<not> nan_less (nan_sub 80 (g k 80)) 55"
  shows "risk_step g 163 80 120 55 5 0 = 1" "risk_step g 163 80 120 55 5 1 = 2"
    "risk_step g 163 80 120 55 5 2 = 3" "risk_step g 163 80 120 55 5 3 = 4"
    "risk_step g 163 80 120 55 5 4 = 5" "risk_step g 163 80 120 55 5 5 = 5"
  using assms
  by (simp_all add: risk_step_def generic_163 not_feasible_def nan_less_def nan_sub_def)


section \<open>The risk-threshold engine\<close>

text \<open>
  Claim C3 says that the monthly loop of \<open>risk_policy_infinite\<close> ends as soon as the
  risk under the current treatment drops below the threshold. The loop tests
  \<open>post_trt_risk\<close>, which holds the risk without treatment and is never assigned in
  the loop: a state that enters the loop goes through all twelve months. For a state
  with the risks 0.05 and 0.03, a systolic pressure of 163, both slopes 0.64 and the
  threshold 0.1 - 0.025, one agent lowers the risk from 0.08 to 0.064, below the
  threshold, and the engine still returns five agents, provided the diastolic half of
  the feasibility test passes for the levels 1 to 5.
\<close>

theorem risk_loop_ignores_lowered_risk:
  assumes "\<forall>k\<in>{1..5}. \<not> nan_less (g k 80) 0 \<and> \<not> nan_less (nan_sub 80 (g k 80)) 55"
  shows "post_risk (sbp_reductions_generic 0 163) [[0.64, 0.64]] [[0.05, 0.03]] 0 = Some 0.08
    \<and> post_risk (sbp_reductions_generic 1 163) [[0.64, 0.64]] [[0.05, 0.03]] 0 = Some 0.064
    \<and> risk_policy_infinite g [[0.05, 0.03]] [163] [80] 0.1 0.025 120 55 [[0.64, 0.64]] 5
        = [Some 5]"
proof -
  note st = c3_steps [where g=g, OF assms]
  have "risk_loop g 163 80 120 55 5 (Some 0.08) 0.075 1 0 None =
        Some ((risk_step g 163 80 120 55 5 ^^ (13 - 1)) 0)"
    by (rule risk_loop_runs_all_months) (simp_all add: nan_ge_def)
  also have "(risk_step g 163 80 120 55 5 ^^ (13 - 1)) 0 = 5"
    by (simp add: numeral_eq_Suc funpow_swap1 st)
  finally have loop: "risk_loop g 163 80 120 55 5 (Some 0.08) 0.075 1 0 None = Some 5" .
  have "risk_policy_state g [[0.05, 0.03]] [163] [80] 0.1 0.025 120 55 [[0.64, 0.64]] 5 0
        = risk_loop g 163 80 120 55 5 (Some 0.08) 0.075 1 0 None"
    by (rule risk_policy_state_enter [OF c3_risks(1)]) (simp_all add: nan_ge_def)
  with loop have "risk_policy_state g [[0.05, 0.03]] [163] [80] 0.1 0.025 120 55
        [[0.64, 0.64]] 5 0 = Some 5"
    by simp
  then have "risk_policy_infinite g [[0.05, 0.03]] [163] [80] 0.1 0.025 120 55 [[0.64, 0.64]] 5
        = [Some 5]"
    by (simp add: risk_policy_infinite_def)
  then show ?thesis using c3_risks by simp
qed

theorem risk_loop_ignores_lowered_risk_witness:
  "list_all (\<lambda>k. \<not> nan_less (no_dbp_effect_generic k 80) 0
                \<and> \<not> nan_less (nan_sub 80 (no_dbp_effect_generic k 80)) 55) [1, 2, 3, 4, 5]
   \<and> post_risk (sbp_reductions_generic 1 163) [[0.64, 0.64]] [[0.05, 0.03]] 0 = Some 0.064
   \<and> risk_policy_infinite no_dbp_effect_generic [[0.05, 0.03]] [163] [80] 0.1 0.025 120 55
        [[0.64, 0.64]] 5 = [Some 5]"
proof -
  have h: "\<forall>k\<in>{1..5}. \<not> nan_less (no_dbp_effect_generic k 80) 0
      \<and> \<not> nan_less (nan_sub 80 (no_dbp_effect_generic k 80)) 55"
    by (simp add: no_dbp_effect_generic_def nan_less_def nan_sub_def)
  from risk_loop_ignores_lowered_risk [where g=no_dbp_effect_generic, OF h] show ?thesis
    by (simp add: no_dbp_effect_generic_def nan_less_def nan_sub_def)
qed


lemma aha_loop_exit:
  "\<not> (month \<le> 12 \<and> (nan_ge ps tsbp \<or> nan_ge pd tdbp)) \<Longrightarrow>
   aha_loop g sbp dbp tsbp tdbp smin dmin n month ps pd past pol = pol"
  by (subst aha_loop.simps) auto

lemma nth_fold_update:
  assumes "h < n"
  shows "fold (\<lambda>h xs. xs[h := f h]) [0..<n] (replicate n x) ! h = f h"
proof -
  have "fold (\<lambda>h xs. xs[h := f h]) [0..<n] (replicate n x) = map f [0..<n]"
    using fold_update_upt [of n "replicate n x" f] by simp
  then show ?thesis using assms by simp
qed

lemma aha_guideline_infinite_nth:
  "h < length risks \<Longrightarrow>
   aha_guideline_infinite g risks sbps dbps trisk tsbp tdbp
     smin dmin slope n healthy ! h =
   aha_guideline_state g risks sbps dbps trisk tsbp tdbp
     smin dmin slope n healthy h"
  unfolding aha_guideline_infinite_def Let_def by (rule nth_fold_update)

lemma aha_guideline_state_loop_skipped:
  assumes "g 0 (dbps ! h) = Some 0"
    and "nan_ge (post_risk (Some 0) slope risks h) trisk \<or> h \<notin> set healthy"
    and "130 \<le> sbps ! h \<or> 80 \<le> dbps ! h"
    and "sbps ! h < tsbp" "dbps ! h < tdbp"
  shows "aha_guideline_state g risks sbps dbps trisk tsbp tdbp
           smin dmin slope n healthy h = None"
proof -
  have "aha_loop g (sbps ! h) (dbps ! h) tsbp tdbp smin dmin n 1
          (Some (sbps ! h)) (Some (dbps ! h)) 0 None = None"
    by (rule aha_loop_exit) (use assms(4,5) in \<open>simp add: nan_ge_def\<close>)
  then show ?thesis
    using assms(1,2,3)
    by (auto simp: aha_guideline_state_def sbp_reductions_generic_def Let_def nan_sub_def
        nan_ge_def)
qed

lemma aha_guideline_state_on_target:
  assumes "g 0 (dbps ! h) = Some 0"
    and "sbps ! h < 130" "dbps ! h < 80" "130 \<le> tsbp" "80 \<le> tdbp"
  shows "aha_guideline_state g risks sbps dbps trisk tsbp tdbp
           smin dmin slope n healthy h = Some 0"
  using assms
  by (auto simp: aha_guideline_state_def sbp_reductions_generic_def Let_def nan_sub_def
      nan_ge_def nan_less_def)


section \<open>The clinical-guideline engine\<close>

text \<open>
  Claim C10 says that \<open>aha_guideline_infinite\<close> returns a treatment level, not NaN, for
  every state, also for a state that meets the entry condition of the first regime
  while its pressures are already below \<open>targetsbp\<close> and \<open>targetdbp\<close>. The entry
  condition compares the pressures with the constants 130 and 80 and the loop compares
  them with the targets, so for targets above 130/80 such a state enters the regime
  and skips the loop body: its entry of the result is the NaN of line 22. This holds
  for every state of that kind, given that the diastolic reduction under no treatment
  is 0.
\<close>

theorem aha_guideline_infinite_returns_nan:
  assumes "h < length risks"
    and "g 0 (dbps ! h) = Some 0"
    and "nan_ge (post_risk (Some 0) slope risks h) trisk \<or> h \<notin> set healthy"
    and "130 \<le> sbps ! h \<or> 80 \<le> dbps ! h"
    and "sbps ! h < tsbp" "dbps ! h < tdbp"
  shows "aha_guideline_infinite g risks sbps dbps trisk tsbp
           tdbp smin dmin slope n healthy ! h = None"
  unfolding aha_guideline_infinite_nth [OF assms(1)]
  using assms(2-6) by (rule aha_guideline_state_loop_skipped)

theorem aha_guideline_infinite_returns_nan_witness:
  "no_dbp_effect_generic 0 ([75, 75] ! 1) = Some 0
   \<and> 1 \<notin> set [0::nat]
   \<and> (130::real) \<le> [135, 135] ! 1 \<and> [135, 135] ! 1 < (140::real) \<and> [75, 75] ! 1 < (90::real)
   \<and> aha_guideline_infinite no_dbp_effect_generic [[0.01, 0.01], [0.01, 0.01]] [135, 135]
        [75, 75] 0.1 140 90 120 55 [[0.64, 0.64]] 5 [0] ! 1 = None"
proof -
  have "aha_guideline_infinite no_dbp_effect_generic [[0.01, 0.01], [0.01, 0.01]] [135, 135]
        [75, 75] 0.1 140 90 120 55 [[0.64, 0.64]] 5 [0] ! 1 = None"
    by (rule aha_guideline_infinite_returns_nan)
       (simp_all add: no_dbp_effect_generic_def)
  then show ?thesis by (simp add: no_dbp_effect_generic_def)
qed

text \<open>
  Claim C9 says that the level returned for a state does not decrease when the
  pressures of that state increase and everything else stays the same. With the
  targets 140 and 90 and a state with a history of disease (state 1; state 0 is the
  healthy one), the pressures 125/75 give no treatment, level 0, and the pressures
  135/75 give NaN, which no comparison places at or above 0: the same missing
  assignment as in claim C10.
\<close>

theorem aha_guideline_infinite_not_monotone:
  assumes "g 0 75 = Some 0"
  shows "aha_guideline_infinite g [[0.01, 0.01], [0.01, 0.01]] [125, 125] [75, 75] 0.1 140 90
           120 55 [[0.64, 0.64]] 5 [0] ! 1 = Some 0
    \<and> aha_guideline_infinite g [[0.01, 0.01], [0.01, 0.01]] [125, 135] [75, 75] 0.1 140 90
           120 55 [[0.64, 0.64]] 5 [0] ! 1 = None
    \<and> \<not> nan_le
          (aha_guideline_infinite g [[0.01, 0.01], [0.01, 0.01]] [125, 125] [75, 75] 0.1 140 90
             120 55 [[0.64, 0.64]] 5 [0] ! 1)
          (aha_guideline_infinite g [[0.01, 0.01], [0.01, 0.01]] [125, 135] [75, 75] 0.1 140 90
             120 55 [[0.64, 0.64]] 5 [0] ! 1)"
proof -
  have n1: "1 < length [[0.01, 0.01], [0.01, 0.01::real]]"
    by simp
  have lo: "aha_guideline_infinite g [[0.01, 0.01], [0.01, 0.01]] [125, 125] [75, 75] 0.1 140 90
           120 55 [[0.64, 0.64]] 5 [0] ! 1 = Some 0"
    unfolding aha_guideline_infinite_nth [OF n1]
    by (rule aha_guideline_state_on_target) (use assms in simp_all)
  have hi: "aha_guideline_infinite g [[0.01, 0.01], [0.01, 0.01]] [125, 135] [75, 75] 0.1 140 90
           120 55 [[0.64, 0.64]] 5 [0] ! 1 = None"
    unfolding aha_guideline_infinite_nth [OF n1]
    by (rule aha_guideline_state_loop_skipped) (use assms in simp_all)
  show ?thesis unfolding lo hi by (simp add: nan_le_def)
qed

theorem aha_guideline_infinite_not_monotone_witness:
  "no_dbp_effect_generic 0 75 = Some 0
   \<and> aha_guideline_infinite no_dbp_effect_generic [[0.01, 0.01], [0.01, 0.01]] [125, 125]
        [75, 75] 0.1 140 90 120 55 [[0.64, 0.64]] 5 [0] ! 1 = Some 0
   \<and> aha_guideline_infinite no_dbp_effect_generic [[0.01, 0.01], [0.01, 0.01]] [125, 135]
        [75, 75] 0.1 140 90 120 55 [[0.64, 0.64]] 5 [0] ! 1 = None"
proof -
  have h: "no_dbp_effect_generic 0 75 = Some 0"
    by (simp add: no_dbp_effect_generic_def)
  from aha_guideline_infinite_not_monotone [where g=no_dbp_effect_generic, OF h] h
  show ?thesis by simp
qed

end
